theory Spec2Isabelle
  imports Complex_Main
begin

section \<open>The dataset generator of \<open>modelling/part-4/gen_data.py\<close>\<close>

text \<open>
  The script seeds NumPy's global random source, samples an \<open>N \<times> F\<close> matrix of uniform
  values, rounds it to four decimals, computes one integer demand per row from the first
  five features and a Gaussian draw, renumbers the index from 1 and writes the table as
  comma-separated text.

  Conventions of the embedding:
  \<^item> a \<open>float64\<close> is a real number: arithmetic is exact, there is no NaN, no negative zero
    and no overflow to infinity, so the model is the code as long as the values stay
    within float64 range (as they do over the interval of the script); the one test for
    finiteness that NumPy makes itself, on the width of the interval, is kept;
  \<^item> NumPy's global random source is an explicit state of type \<open>'g\<close>, threaded through
    every call that draws from it; the generator itself (the Mersenne Twister and the
    Gaussian sampler built on it) is a parameter, the record \<open>random_source\<close>;
  \<^item> the constants \<open>N\<close>, \<open>F\<close>, the interval \<open>-1, 2\<close> and the seed \<open>123\<close> of the script are
    arguments of \<open>gen_data\<close>; \<open>gen_data_script\<close> is the script with its own constants;
  \<^item> an exception is a value \<open>Inl e\<close>; the first one ends the run;
  \<^item> pandas is read as version 2: \<open>apply\<close> calls the function once per row, and what it
    does on a frame without rows or without columns is written out in \<open>apply_axis1\<close> and
    \<open>set_column\<close>;
  \<^item> the output file is the list of its lines.
\<close>

subsection \<open>Numbers and text\<close>

datatype py_error = ValueError | IndexError | KeyError | OverflowError

text \<open>Python's \<open>round(x)\<close> and NumPy's \<open>rint\<close>: the nearest integer, a tie going to the even one.\<close>

definition py_round :: "real \<Rightarrow> int" where
  "py_round x =
     (let f = \<lfloor>x\<rfloor>; d = x - of_int f
      in if d < 1 / 2 then f
         else if 1 / 2 < d then f + 1
         else if even f then f else f + 1)"

text \<open>\<open>ndarray.round(decimals)\<close>: scale, round to the nearest integer, scale back.\<close>

definition np_round :: "nat \<Rightarrow> real \<Rightarrow> real" where
  "np_round decimals x = of_int (py_round (x * 10 ^ decimals)) / 10 ^ decimals"

fun string_of_nat :: "nat \<Rightarrow> string" where
  "string_of_nat n =
     (if n < 10 then [char_of (48 + n)]
      else string_of_nat (n div 10) @ [char_of (48 + n mod 10)])"

declare string_of_nat.simps [simp del]

definition string_of_int :: "int \<Rightarrow> string" where
  "string_of_int i = (if i < 0 then CHR ''-'' # string_of_nat (nat (- i)) else string_of_nat (nat i))"

text \<open>The f-string \<open>f"Feature_{i}"\<close>.\<close>

definition feature_label :: "int \<Rightarrow> string" where
  "feature_label i = ''Feature_'' @ string_of_int i"

subsection \<open>The random source\<close>

text \<open>
  \<open>seed_state s\<close> is the state \<open>np.random.seed(s)\<close> installs, \<open>random_sample\<close> draws one
  value of \<open>[0, 1)\<close> and \<open>standard_normal\<close> one standard Gaussian value; each returns the
  state it leaves behind.
\<close>

record 'g random_source =
  seed_state :: "nat \<Rightarrow> 'g"
  random_sample :: "'g \<Rightarrow> real \<times> 'g"
  standard_normal :: "'g \<Rightarrow> real \<times> 'g"

text \<open>NumPy's contract for \<open>random_sample\<close>: the half-open unit interval.\<close>

definition unit_samples :: "'g random_source \<Rightarrow> bool" where
  "unit_samples rs \<longleftrightarrow> (\<forall>g. 0 \<le> fst (random_sample rs g) \<and> fst (random_sample rs g) < 1)"

text \<open>\<open>np.random.seed(s)\<close> replaces the global state, whatever it was; the seed must fit 32 bits.\<close>

definition np_random_seed :: "'g random_source \<Rightarrow> int \<Rightarrow> 'g \<Rightarrow> py_error + 'g" where
  "np_random_seed rs s g = (if s < 0 \<or> 2 ^ 32 \<le> s then Inl ValueError else Inr (seed_state rs (nat s)))"

text \<open>One element of \<open>np.random.uniform(low, high)\<close>: \<open>low + (high - low) * random_sample()\<close>.\<close>

definition uniform1 :: "'g random_source \<Rightarrow> real \<Rightarrow> real \<Rightarrow> 'g \<Rightarrow> real \<times> 'g" where
  "uniform1 rs low high g = (case random_sample rs g of (u, g') \<Rightarrow> (low + (high - low) * u, g'))"

fun uniform_list :: "'g random_source \<Rightarrow> real \<Rightarrow> real \<Rightarrow> nat \<Rightarrow> 'g \<Rightarrow> real list \<times> 'g" where
  "uniform_list rs low high 0 g = ([], g)"
| "uniform_list rs low high (Suc k) g =
     (case uniform1 rs low high g of (x, g1) \<Rightarrow>
        (case uniform_list rs low high k g1 of (xs, g2) \<Rightarrow> (x # xs, g2)))"

fun uniform_rows :: "'g random_source \<Rightarrow> real \<Rightarrow> real \<Rightarrow> nat \<Rightarrow> nat \<Rightarrow> 'g \<Rightarrow> real list list \<times> 'g" where
  "uniform_rows rs low high 0 f g = ([], g)"
| "uniform_rows rs low high (Suc n) f g =
     (case uniform_list rs low high f g of (r, g1) \<Rightarrow>
        (case uniform_rows rs low high n f g1 of (m, g2) \<Rightarrow> (r # m, g2)))"

text \<open>
  A real is within float64 range when rounding it to the nearest float64 gives a finite
  value: its magnitude is below the largest float64, \<open>2\<^sup>1\<^sup>0\<^sup>2\<^sup>4 - 2\<^sup>9\<^sup>7\<^sup>1\<close>, plus half a unit in
  the last place, \<open>2\<^sup>9\<^sup>7\<^sup>0\<close>.
\<close>

definition float64_finite :: "real \<Rightarrow> bool" where
  "float64_finite x \<longleftrightarrow> \<bar>x\<bar> < 2 ^ 1024 - 2 ^ 970"

text \<open>
  \<open>np.random.uniform(low, high, size=(n, f))\<close>: the width \<open>high - low\<close> must be finite
  (OverflowError, "Range exceeds valid bounds"); a negative dimension is refused before
  anything is drawn; otherwise the matrix is filled row by row from successive draws.
  The order of \<open>low\<close> and \<open>high\<close> is not looked at.
\<close>

definition np_random_uniform ::
  "'g random_source \<Rightarrow> real \<Rightarrow> real \<Rightarrow> int \<Rightarrow> int \<Rightarrow> 'g \<Rightarrow> py_error + (real list list \<times> 'g)" where
  "np_random_uniform rs low high n f g =
     (if \<not> float64_finite (high - low) then Inl OverflowError
      else if n < 0 \<or> f < 0 then Inl ValueError
      else Inr (uniform_rows rs low high (nat n) (nat f) g))"

text \<open>\<open>np.random.normal(loc, scale)\<close>: \<open>loc + scale * standard_normal()\<close>.\<close>

definition np_random_normal :: "'g random_source \<Rightarrow> real \<Rightarrow> real \<Rightarrow> 'g \<Rightarrow> real \<times> 'g" where
  "np_random_normal rs loc scale g = (case standard_normal rs g of (z, g') \<Rightarrow> (loc + scale * z, g'))"

subsection \<open>The table\<close>

datatype cell = Float real | Integer int

fun cell_val :: "cell \<Rightarrow> real" where
  "cell_val (Float x) = x"
| "cell_val (Integer i) = of_int i"

record frame =
  index_name :: "string option"
  index :: "int list"
  columns :: "string list"
  rows :: "cell list list"

text \<open>
  \<open>pd.DataFrame(matrix, columns=labels)\<close>: the default index \<open>0 .. n-1\<close> without a name.
  The script passes as many labels as the matrix has columns.
\<close>

definition DataFrame :: "real list list \<Rightarrow> string list \<Rightarrow> frame" where
  "DataFrame m labels =
     \<lparr>index_name = None, index = map int [0..<length m], columns = labels,
      rows = map (map Float) m\<rparr>"

text \<open>\<open>row[label]\<close> on the Series that \<open>apply\<close> hands to the function.\<close>

definition series_get :: "(string \<times> cell) list \<Rightarrow> string \<Rightarrow> py_error + cell" where
  "series_get row label = (case map_of row label of None \<Rightarrow> Inl KeyError | Some c \<Rightarrow> Inr c)"

fun collect :: "('e + 'a) list \<Rightarrow> 'e + 'a list" where
  "collect [] = Inr []"
| "collect (Inl e # _) = Inl e"
| "collect (Inr x # rest) = (case collect rest of Inl e \<Rightarrow> Inl e | Inr xs \<Rightarrow> Inr (x # xs))"

text \<open>The value \<open>val\<close> of \<open>polynomial_function\<close>, from the array \<open>fs\<close>.\<close>

definition poly_value :: "real list \<Rightarrow> real" where
  "poly_value fs =
     2 + 3 / 10 * fs ! 0 + 5 / 10 * (fs ! 1) ^ 3 + 7 / 10 * fs ! 2 * fs ! 3
       + 9 / 10 * (fs ! 1 + fs ! 3) + sin (fs ! 4)"

text \<open>
  \<open>polynomial_function(row)\<close>, with the global \<open>F\<close> as the argument \<open>f\<close>. The list
  comprehension reads \<open>f\<close> labels from the row; \<open>fs[0] .. fs[4]\<close> raise IndexError on a
  shorter array, before the noise is drawn.
\<close>

definition polynomial_function ::
  "'g random_source \<Rightarrow> int \<Rightarrow> (string \<times> cell) list \<Rightarrow> 'g \<Rightarrow> py_error + (int \<times> 'g)" where
  "polynomial_function rs f row g =
     (case collect (map (\<lambda>i. series_get row (feature_label (int i + 1))) [0..<nat f]) of
        Inl e \<Rightarrow> Inl e
      | Inr cs \<Rightarrow>
          (let fs = map cell_val cs in
           if length fs < 5 then Inl IndexError
           else (case np_random_normal rs 4 2 g of
                   (err, g') \<Rightarrow> Inr (py_round (12 * poly_value fs + err), g'))))"

text \<open>The row loop of \<open>DataFrame.apply(func, axis=1)\<close>: top to bottom, one call per row.\<close>

fun apply_rows ::
  "('r \<Rightarrow> 'g \<Rightarrow> py_error + ('a \<times> 'g)) \<Rightarrow> 'r list \<Rightarrow> 'g \<Rightarrow> py_error + ('a list \<times> 'g)" where
  "apply_rows func [] g = Inr ([], g)"
| "apply_rows func (r # rest) g =
     (case func r g of
        Inl e \<Rightarrow> Inl e
      | Inr (d, g1) \<Rightarrow>
          (case apply_rows func rest g1 of
             Inl e \<Rightarrow> Inl e
           | Inr (ds, g2) \<Rightarrow> Inr (d # ds, g2)))"

text \<open>
  \<open>data.apply(func, axis=1)\<close> (pandas 2): a frame with an empty axis comes back as a copy
  of itself (the trial call of \<open>func\<close> on an all-missing row raises inside pandas and is
  swallowed; with five or more columns it has drawn one Gaussian value by then, which the
  model leaves out, since the assignment that follows raises); otherwise the result is
  the Series of the values \<open>func\<close> returned.
\<close>

datatype applied = ResultSeries "int list" | ResultFrame frame

definition apply_axis1 ::
  "((string \<times> cell) list \<Rightarrow> 'g \<Rightarrow> py_error + (int \<times> 'g)) \<Rightarrow> frame \<Rightarrow> 'g \<Rightarrow> py_error + (applied \<times> 'g)" where
  "apply_axis1 func fr g =
     (if rows fr = [] \<or> columns fr = [] then Inr (ResultFrame fr, g)
      else (case apply_rows func (map (zip (columns fr)) (rows fr)) g of
              Inl e \<Rightarrow> Inl e
            | Inr (ds, g') \<Rightarrow> Inr (ResultSeries ds, g')))"

text \<open>
  \<open>data[label] = value\<close> for a label that is not yet a column. A Series becomes the new
  last column. A frame (pandas 2) must have exactly one column, which becomes the new
  column; any other frame is a ValueError.
\<close>

definition set_column :: "frame \<Rightarrow> string \<Rightarrow> applied \<Rightarrow> py_error + frame" where
  "set_column fr label v =
     (case v of
        ResultSeries ds \<Rightarrow>
          Inr (fr\<lparr>columns := columns fr @ [label],
                  rows := map (\<lambda>(r, d). r @ [Integer d]) (zip (rows fr) ds)\<rparr>)
      | ResultFrame v \<Rightarrow>
          (if length (columns v) = 1
           then Inr (fr\<lparr>columns := columns fr @ [label],
                        rows := map (\<lambda>(r, r'). r @ r') (zip (rows fr) (rows v))\<rparr>)
           else Inl ValueError))"

subsection \<open>The script\<close>

text \<open>Lines 8 to 44, from the seeded state \<open>g\<close>.\<close>

definition build_table ::
  "'g random_source \<Rightarrow> int \<Rightarrow> int \<Rightarrow> real \<Rightarrow> real \<Rightarrow> 'g \<Rightarrow> py_error + (frame \<times> 'g)" where
  "build_table rs n f low high g =
     (case np_random_uniform rs low high n f g of
        Inl e \<Rightarrow> Inl e
      | Inr (m, g1) \<Rightarrow>
          (let data = DataFrame (map (map (np_round 4)) m) (map feature_label [1..f]) in
           case apply_axis1 (polynomial_function rs f) data g1 of
             Inl e \<Rightarrow> Inl e
           | Inr (v, g2) \<Rightarrow>
               (case set_column data ''Demand'' v of
                  Inl e \<Rightarrow> Inl e
                | Inr data \<Rightarrow>
                    Inr (data\<lparr>index := [1..int (length (rows data))],
                              index_name := Some ''Observation''\<rparr>, g2))))"

text \<open>Lines 6 to 44: the run starts from whatever global state \<open>g\<close> the process has.\<close>

definition gen_data ::
  "'g random_source \<Rightarrow> int \<Rightarrow> int \<Rightarrow> int \<Rightarrow> real \<Rightarrow> real \<Rightarrow> 'g \<Rightarrow> py_error + (frame \<times> 'g)" where
  "gen_data rs seed n f low high g =
     (case np_random_seed rs seed g of
        Inl e \<Rightarrow> Inl e
      | Inr g0 \<Rightarrow> build_table rs n f low high g0)"

text \<open>
  \<open>data.to_csv(path, index=True)\<close>: the header is the index name and the column labels,
  then one line per row: the index value and the cells, joined by commas. \<open>float_repr\<close>
  is the text pandas writes for a float. None of the labels needs quoting.
\<close>

fun join :: "string \<Rightarrow> string list \<Rightarrow> string" where
  "join sep [] = []"
| "join sep [s] = s"
| "join sep (s # t # rest) = s @ sep @ join sep (t # rest)"

fun cell_text :: "(real \<Rightarrow> string) \<Rightarrow> cell \<Rightarrow> string" where
  "cell_text float_repr (Float x) = float_repr x"
| "cell_text float_repr (Integer i) = string_of_int i"

definition csv_fields :: "(real \<Rightarrow> string) \<Rightarrow> frame \<Rightarrow> string list list" where
  "csv_fields float_repr fr =
     ((case index_name fr of None \<Rightarrow> [] | Some s \<Rightarrow> s) # columns fr)
       # map (\<lambda>(i, r). string_of_int i # map (cell_text float_repr) r) (zip (index fr) (rows fr))"

definition to_csv :: "(real \<Rightarrow> string) \<Rightarrow> frame \<Rightarrow> string list" where
  "to_csv float_repr fr = map (join '','') (csv_fields float_repr fr)"

text \<open>The script with its constants: seed 123, 100 rows, 5 features, the interval from -1 to 2.\<close>

definition gen_data_script ::
  "'g random_source \<Rightarrow> (real \<Rightarrow> string) \<Rightarrow> 'g \<Rightarrow> py_error + (string list \<times> 'g)" where
  "gen_data_script rs float_repr g =
     (case gen_data rs 123 100 5 (- 1) 2 g of
        Inl e \<Rightarrow> Inl e
      | Inr (data, g') \<Rightarrow> Inr (to_csv float_repr data, g'))"

subsection \<open>A replayed random source\<close>

text \<open>
  A source for running the definitions on concrete draws: it replays a recorded list of
  unit samples and a recorded list of Gaussian values, each cyclically, from a counter.
\<close>

definition replay_source :: "real list \<Rightarrow> real list \<Rightarrow> nat random_source" where
  "replay_source us zs =
     \<lparr>seed_state = (\<lambda>s. 0),
      random_sample = (\<lambda>k. (us ! (k mod length us), k + 1)),
      standard_normal = (\<lambda>k. (zs ! (k mod length zs), k + 1))\<rparr>"

subsection \<open>Auxiliary definitions for the statements\<close>

text \<open>Reading a decimal numeral back, the left inverse of \<open>string_of_nat\<close>.\<close>

definition nat_of_string :: "string \<Rightarrow> nat" where
  "nat_of_string s = foldl (\<lambda>a c. 10 * a + (of_char c - 48)) 0 s"

text \<open>The state of the source after \<open>k\<close> unit samples, and after \<open>k\<close> Gaussian draws.\<close>

fun after_samples :: "'g random_source \<Rightarrow> nat \<Rightarrow> 'g \<Rightarrow> 'g" where
  "after_samples rs 0 g = g"
| "after_samples rs (Suc k) g = after_samples rs k (snd (random_sample rs g))"

fun after_normals :: "'g random_source \<Rightarrow> nat \<Rightarrow> 'g \<Rightarrow> 'g" where
  "after_normals rs 0 g = g"
| "after_normals rs (Suc k) g = after_normals rs k (snd (standard_normal rs g))"

text \<open>The values of \<open>k\<close> successive calls \<open>np.random.normal(4, 2)\<close> from the state \<open>g\<close>.\<close>

fun noise_draws :: "'g random_source \<Rightarrow> nat \<Rightarrow> 'g \<Rightarrow> real list" where
  "noise_draws rs 0 g = []"
| "noise_draws rs (Suc k) g = (case np_random_normal rs 4 2 g of (e, g') \<Rightarrow> e # noise_draws rs k g')"

text \<open>The value \<open>polynomial_function\<close> returns for the array \<open>fs\<close> and the noise \<open>err\<close>.\<close>

definition demand_of :: "real list \<Rightarrow> real \<Rightarrow> int" where
  "demand_of fs err = py_round (12 * poly_value fs + err)"

text \<open>
  A row of the finished table, from a row of the sampled matrix and the noise of that row;
  the matrix \<open>np.random.uniform\<close> returns in a run, before rounding; and the state of the
  source when the matrix has been sampled.
\<close>

definition table_row :: "real list \<Rightarrow> real \<Rightarrow> cell list" where
  "table_row r e = map Float (map (np_round 4) r) @ [Integer (demand_of (map (np_round 4) r) e)]"

definition sampled :: "'g random_source \<Rightarrow> int \<Rightarrow> int \<Rightarrow> int \<Rightarrow> real \<Rightarrow> real \<Rightarrow> real list list" where
  "sampled rs seed n f low high =
     fst (uniform_rows rs low high (nat n) (nat f) (seed_state rs (nat seed)))"

definition noise_state :: "'g random_source \<Rightarrow> int \<Rightarrow> int \<Rightarrow> int \<Rightarrow> 'g" where
  "noise_state rs seed n f = after_samples rs (nat n * nat f) (seed_state rs (nat seed))"

subsection \<open>Concrete runs\<close>

text \<open>
  Three recorded sources and the tables the script builds from them: five unit samples
  and two Gaussian values, where four of the samples fall off the grid of four decimals
  (at 1.25003, -0.24996, 0.00002 and, on a rounding tie, at 0.50005); a constant source
  whose rows all land on a tie of the demand; and a source run over the inverted interval
  from 2 down to -1.
\<close>

definition recorded_source :: "nat random_source" where
  "recorded_source =
     replay_source [75001 / 100000, 0, 18751 / 75000, 30001 / 60000, 33334 / 100000] [1 / 4, - 1]"

definition constant_source :: "nat random_source" where
  "constant_source = replay_source [1 / 3] [1 / 4]"

definition inverted_source :: "nat random_source" where
  "inverted_source = replay_source [0, 1 / 3, 2 / 3, 1 / 2, 2 / 3] [1 / 4]"

definition feature_columns :: "string list" where
  "feature_columns =
     [''Feature_1'', ''Feature_2'', ''Feature_3'', ''Feature_4'', ''Feature_5'', ''Demand'']"

definition recorded_table :: frame where
  "recorded_table =
     \<lparr>index_name = Some ''Observation'', index = [1, 2], columns = feature_columns,
      rows = [[Float (5 / 4), Float (- 1), Float (- (1 / 4)), Float (1 / 2), Float 0, Integer 21],
              [Float (5 / 4), Float (- 1), Float (- (1 / 4)), Float (1 / 2), Float 0, Integer 18]]\<rparr>"

definition constant_table :: frame where
  "constant_table =
     \<lparr>index_name = Some ''Observation'', index = [1], columns = feature_columns,
      rows = [[Float 0, Float 0, Float 0, Float 0, Float 0, Integer 28]]\<rparr>"

definition inverted_table :: frame where
  "inverted_table =
     \<lparr>index_name = Some ''Observation'', index = [1], columns = feature_columns,
      rows = [[Float 2, Float 1, Float 0, Float (1 / 2), Float 0, Integer 58]]\<rparr>"

text \<open>
  The text of \<open>k\<close> ten-thousandths: the sign, the integer part, a point and the decimals
  without trailing zeros (at least one). This is what Python's \<open>repr\<close> prints for the
  float64 nearest to \<open>k / 10000\<close> when its magnitude is between \<open>0.0001\<close> and \<open>10\<^sup>1\<^sup>6\<close>.
\<close>

definition fraction_digits :: "nat \<Rightarrow> string" where
  "fraction_digits k =
     (let ds = [char_of (48 + k div 1000 mod 10), char_of (48 + k div 100 mod 10),
                char_of (48 + k div 10 mod 10), char_of (48 + k mod 10)];
          s = rev (dropWhile (\<lambda>c. c = CHR ''0'') (rev ds))
      in if s = [] then ''0'' else s)"

definition decimal_text :: "int \<Rightarrow> string" where
  "decimal_text k =
     (let a = nat \<bar>k\<bar>
      in (if k < 0 then ''-'' else []) @ string_of_nat (a div 10000) @ ''.''
           @ fraction_digits (a mod 10000))"

text \<open>
  The contract of the float formatter on the values of the table: a cell of \<open>k\<close>
  ten-thousandths, \<open>k\<close> between -20000 and 20000, is written as \<open>decimal_text k\<close>; a
  zero cell is written \<open>0.0\<close> or, for the negative zero that a real number does not
  tell apart, \<open>-0.0\<close>.
\<close>

definition repr_on_grid :: "(real \<Rightarrow> string) \<Rightarrow> bool" where
  "repr_on_grid float_repr \<longleftrightarrow>
     (\<forall>k::int. k \<noteq> 0 \<and> \<bar>k\<bar> \<le> 20000 \<longrightarrow> float_repr (real_of_int k / 10 ^ 4) = decimal_text k)
     \<and> (float_repr 0 = ''0.0'' \<or> float_repr 0 = ''-0.0'')"

text \<open>A formatter that keeps the contract; a value off the grid gets no text.\<close>

definition decimal4 :: "real \<Rightarrow> string" where
  "decimal4 x =
     (let k = \<lfloor>x * 10 ^ 4\<rfloor> in if real_of_int k = x * 10 ^ 4 then decimal_text k else [])"

text \<open>
  The text after the first point of a field, and the property that a field has a
  point, followed by at most \<open>n\<close> characters, all of them digits.
\<close>

definition after_point :: "string \<Rightarrow> string" where
  "after_point s = tl (dropWhile (\<lambda>c. c \<noteq> CHR ''.'') s)"

definition is_digit :: "char \<Rightarrow> bool" where
  "is_digit c \<longleftrightarrow> c \<in> set ''0123456789''"

definition decimals_at_most :: "nat \<Rightarrow> string \<Rightarrow> bool" where
  "decimals_at_most n s \<longleftrightarrow>
     CHR ''.'' \<in> set s \<and> length (after_point s) \<le> n \<and> list_all is_digit (after_point s)"

section \<open>Properties\<close>

subsection \<open>Rounding\<close>

lemma py_round_cases:
  "py_round x = \<lfloor>x\<rfloor> \<or> py_round x = \<lfloor>x\<rfloor> + 1"
  by (simp add: py_round_def Let_def)

lemma py_round_nearest: "\<bar>real_of_int (py_round x) - x\<bar> \<le> 1 / 2"
proof -
  have "real_of_int \<lfloor>x\<rfloor> \<le> x" "x < real_of_int \<lfloor>x\<rfloor> + 1" by linarith+
  then show ?thesis
    by (auto simp: py_round_def Let_def)
qed

lemma py_round_tie_even:
  assumes "x - real_of_int \<lfloor>x\<rfloor> = 1 / 2"
  shows "even (py_round x)"
  using assms by (simp add: py_round_def Let_def)

lemma py_round_of_int [simp]: "py_round (real_of_int k) = k"
  by (simp add: py_round_def Let_def)

lemma py_round_ge: 
  assumes "real_of_int k \<le> x" shows "k \<le> py_round x"
proof -
  have "k \<le> \<lfloor>x\<rfloor>" using assms by linarith
  then show ?thesis using py_round_cases [of x] by linarith
qed

lemma py_round_le:
  assumes "x \<le> real_of_int k" shows "py_round x \<le> k"
proof (cases "x = real_of_int k")
  case True
  then show ?thesis by simp
next
  case False
  then have "x < real_of_int k" using assms by simp
  then have "\<lfloor>x\<rfloor> < k" by linarith
  then show ?thesis using py_round_cases [of x] by linarith
qed

lemma np_round_ge:
  assumes "real_of_int k / 10 ^ d \<le> x"
  shows "real_of_int k / 10 ^ d \<le> np_round d x"
proof -
  have "real_of_int k \<le> x * 10 ^ d"
    using assms by (simp add: pos_divide_le_eq)
  then have "k \<le> py_round (x * 10 ^ d)" by (rule py_round_ge)
  then show ?thesis
    by (simp add: np_round_def divide_right_mono)
qed

lemma np_round_le:
  assumes "x \<le> real_of_int k / 10 ^ d"
  shows "np_round d x \<le> real_of_int k / 10 ^ d"
proof -
  have "x * 10 ^ d \<le> real_of_int k"
    using assms by (simp add: pos_le_divide_eq)
  then have "py_round (x * 10 ^ d) \<le> k" by (rule py_round_le)
  then show ?thesis
    by (simp add: np_round_def divide_right_mono)
qed

lemma np_round4_range:
  assumes "- 1 \<le> x" "x \<le> 2"
  shows "- 1 \<le> np_round 4 x \<and> np_round 4 x \<le> 2"
  using np_round_ge [of "- 10000" 4 x] np_round_le [of x 20000 4] assms by simp

lemma np_round4_eq_2:
  assumes "np_round 4 x = 2"
  shows "199995 / 100000 \<le> x"
proof -
  have "real_of_int (py_round (x * 10 ^ 4)) = 20000"
    using assms by (simp add: np_round_def field_simps)
  with py_round_nearest [of "x * 10 ^ 4"] have "\<bar>20000 - x * 10000\<bar> \<le> 1 / 2"
    by simp
  then show ?thesis by linarith
qed

lemma np_round_decimals: "\<exists>k::int. np_round d x = real_of_int k / 10 ^ d"
  by (auto simp: np_round_def)

subsection \<open>Labels\<close>

lemma nat_of_string_snoc: "nat_of_string (s @ [c]) = 10 * nat_of_string s + (of_char c - 48)"
  by (simp add: nat_of_string_def)

lemma of_char_digit: "d < 10 \<Longrightarrow> (of_char (char_of (48 + d)) :: nat) = 48 + d"
  by simp

lemma nat_of_string_of_nat: "nat_of_string (string_of_nat n) = n"
proof (induction n rule: string_of_nat.induct)
  case (1 n)
  show ?case
  proof (cases "n < 10")
    case True
    then show ?thesis
      by (subst string_of_nat.simps) (simp add: nat_of_string_def)
  next
    case False
    have "n mod 10 < 10" by simp
    then have "(of_char (char_of (48 + n mod 10)) :: nat) = 48 + n mod 10"
      by (rule of_char_digit)
    with False 1 show ?thesis
      by (subst string_of_nat.simps) (simp add: nat_of_string_snoc)
  qed
qed

lemma string_of_nat_digits: "c \<in> set (string_of_nat n) \<Longrightarrow> (48::nat) \<le> of_char c"
proof (induction n rule: string_of_nat.induct)
  case (1 n)
  show ?case
  proof (cases "n < 10")
    case True
    with 1(2) show ?thesis
      by (subst (asm) string_of_nat.simps) (auto simp: of_char_digit)
  next
    case False
    have "n mod 10 < 10" by simp
    then have "(of_char (char_of (48 + n mod 10)) :: nat) = 48 + n mod 10"
      by (rule of_char_digit)
    with False 1 show ?thesis
      by (subst (asm) (2) string_of_nat.simps) auto
  qed
qed

lemma string_of_nat_not_minus: "string_of_nat n \<noteq> CHR ''-'' # s"
proof
  assume "string_of_nat n = CHR ''-'' # s"
  then have "CHR ''-'' \<in> set (string_of_nat n)" by simp
  then have "(48::nat) \<le> of_char CHR ''-''" by (rule string_of_nat_digits)
  then show False by simp
qed

lemma string_of_nat_inj: "string_of_nat m = string_of_nat n \<Longrightarrow> m = n"
  by (metis nat_of_string_of_nat)

lemma string_of_int_inj: "string_of_int i = string_of_int j \<Longrightarrow> i = j"
  using string_of_nat_not_minus string_of_nat_not_minus [symmetric]
  by (auto simp: string_of_int_def split: if_splits dest!: string_of_nat_inj)

lemma feature_label_inj: "inj feature_label"
  by (rule injI) (simp add: feature_label_def string_of_int_inj)

lemma distinct_feature_labels: "distinct (map feature_label [1..f])"
  by (simp add: distinct_map feature_label_inj inj_on_subset [OF feature_label_inj])

lemma upto_as_upt: "[1..f] = map (\<lambda>i. int i + 1) [0..<nat f]"
proof (rule nth_equalityI)
  show "length [1..f] = length (map (\<lambda>i. int i + 1) [0..<nat f])" by simp
next
  fix i assume "i < length [1..f]"
  then show "[1..f] ! i = map (\<lambda>i. int i + 1) [0..<nat f] ! i" by simp
qed

subsection \<open>Row look-ups\<close>

lemma collect_map_Inr: "collect (map Inr xs) = Inr xs"
  by (induction xs) simp_all

lemma collect_series_get:
  assumes "distinct ks" "length ks = length r"
  shows "collect (map (series_get (zip ks r)) ks) = Inr r"
proof -
  have "map (series_get (zip ks r)) ks = map Inr r"
  proof (rule nth_equalityI)
    show "length (map (series_get (zip ks r)) ks) = length (map Inr r)"
      using assms by simp
  next
    fix i assume "i < length (map (series_get (zip ks r)) ks)"
    then have i: "i < length r" using assms by simp
    then have "map_of (zip ks r) (ks ! i) = Some (r ! i)"
      using assms by (simp add: map_of_zip_nth)
    then show "map (series_get (zip ks r)) ks ! i = map Inr r ! i"
      using i assms by (simp add: series_get_def)
  qed
  then show ?thesis by (simp add: collect_map_Inr)
qed

lemma collect_row:
  assumes "length r = nat f"
  shows "collect (map (\<lambda>i. series_get (zip (map feature_label [1..f]) r) (feature_label (int i + 1)))
           [0..<nat f]) = Inr r"
proof -
  let ?ks = "map feature_label [1..f]"
  have "map (\<lambda>i. series_get (zip ?ks r) (feature_label (int i + 1))) [0..<nat f]
        = map (series_get (zip ?ks r)) ?ks"
    by (subst (2) upto_as_upt) (simp add: comp_def)
  moreover have "collect (map (series_get (zip ?ks r)) ?ks) = Inr r"
    using assms by (intro collect_series_get distinct_feature_labels) simp
  ultimately show ?thesis by simp
qed

subsection \<open>Sampling\<close>

lemma after_samples_add: "after_samples rs (j + k) g = after_samples rs k (after_samples rs j g)"
  by (induction j arbitrary: g) simp_all

lemma uniform_list_length [simp]: "length (fst (uniform_list rs low high k g)) = k"
  by (induction k arbitrary: g) (simp_all add: case_prod_unfold)

lemma uniform_list_state: "snd (uniform_list rs low high k g) = after_samples rs k g"
  by (induction k arbitrary: g) (simp_all add: uniform1_def case_prod_unfold)

lemma uniform_list_nth:
  "j < k \<Longrightarrow> fst (uniform_list rs low high k g) ! j
     = low + (high - low) * fst (random_sample rs (after_samples rs j g))"
proof (induction k arbitrary: g j)
  case 0
  then show ?case by simp
next
  case (Suc k)
  show ?case
  proof (cases j)
    case 0
    then show ?thesis by (simp add: uniform1_def case_prod_unfold)
  next
    case (Suc j')
    with Suc.prems have "j' < k" by simp
    from Suc.IH [OF this, of "snd (random_sample rs g)"] Suc show ?thesis
      by (simp add: uniform1_def case_prod_unfold)
  qed
qed

lemma uniform_rows_length [simp]: "length (fst (uniform_rows rs low high n f g)) = n"
  by (induction n arbitrary: g) (simp_all add: case_prod_unfold)

lemma uniform_rows_state: "snd (uniform_rows rs low high n f g) = after_samples rs (n * f) g"
proof (induction n arbitrary: g)
  case 0
  then show ?case by simp
next
  case (Suc n)
  have "snd (uniform_rows rs low high (Suc n) f g)
        = snd (uniform_rows rs low high n f (snd (uniform_list rs low high f g)))"
    by (simp add: case_prod_unfold)
  also have "\<dots> = after_samples rs (n * f) (after_samples rs f g)"
    by (simp add: Suc.IH uniform_list_state)
  also have "\<dots> = after_samples rs (Suc n * f) g"
    by (simp add: after_samples_add)
  finally show ?case .
qed

lemma uniform_rows_row:
  "i < n \<Longrightarrow> fst (uniform_rows rs low high n f g) ! i
     = fst (uniform_list rs low high f (after_samples rs (i * f) g))"
proof (induction n arbitrary: g i)
  case 0
  then show ?case by simp
next
  case (Suc n)
  show ?case
  proof (cases i)
    case 0
    then show ?thesis by (simp add: case_prod_unfold)
  next
    case (Suc i')
    with Suc.prems have "i' < n" by simp
    from Suc.IH [OF this, of "snd (uniform_list rs low high f g)"] Suc show ?thesis
      by (simp add: uniform_list_state after_samples_add case_prod_unfold)
  qed
qed

lemma uniform_rows_row_length:
  "r \<in> set (fst (uniform_rows rs low high n f g)) \<Longrightarrow> length r = f"
  by (auto simp: in_set_conv_nth uniform_rows_row)

lemma uniform_rows_nth:
  assumes "i < n" "j < f"
  shows "fst (uniform_rows rs low high n f g) ! i ! j
     = low + (high - low) * fst (random_sample rs (after_samples rs (i * f + j) g))"
  using assms by (simp add: uniform_rows_row uniform_list_nth after_samples_add)

lemma noise_draws_length [simp]: "length (noise_draws rs k g) = k"
  by (induction k arbitrary: g) (simp_all add: case_prod_unfold)

lemma noise_draws_nth:
  "i < k \<Longrightarrow> noise_draws rs k g ! i = 4 + 2 * fst (standard_normal rs (after_normals rs i g))"
proof (induction k arbitrary: g i)
  case 0
  then show ?case by simp
next
  case (Suc k)
  show ?case
  proof (cases i)
    case 0
    then show ?thesis by (simp add: np_random_normal_def case_prod_unfold)
  next
    case (Suc i')
    with Suc.prems have "i' < k" by simp
    from Suc.IH [OF this, of "snd (standard_normal rs g)"] Suc show ?thesis
      by (simp add: np_random_normal_def case_prod_unfold)
  qed
qed

subsection \<open>The row function and the row loop\<close>

lemma polynomial_function_ok:
  assumes "length r = nat f" "5 \<le> f"
  shows "polynomial_function rs f (zip (map feature_label [1..f]) r) g
     = Inr (demand_of (map cell_val r) (fst (np_random_normal rs 4 2 g)),
            snd (np_random_normal rs 4 2 g))"
  using assms by (simp add: polynomial_function_def collect_row demand_of_def case_prod_unfold)

lemma polynomial_function_short:
  assumes "length r = nat f" "f < 5"
  shows "polynomial_function rs f (zip (map feature_label [1..f]) r) g = Inl IndexError"
proof -
  have "nat f < 5" using assms(2) by linarith
  then show ?thesis
    using assms(1) by (simp add: polynomial_function_def collect_row)
qed

lemma apply_rows_ok:
  assumes "\<forall>r\<in>set rws. length r = nat f" "5 \<le> f"
  shows "apply_rows (polynomial_function rs f) (map (zip (map feature_label [1..f])) rws) g
     = Inr (map (\<lambda>(r, e). demand_of (map cell_val r) e) (zip rws (noise_draws rs (length rws) g)),
            after_normals rs (length rws) g)"
  using assms(1)
proof (induction rws arbitrary: g)
  case Nil
  then show ?case by simp
next
  case (Cons r rws)
  then have r: "length r = nat f" and rest: "\<forall>r\<in>set rws. length r = nat f" by simp_all
  show ?case
    by (simp add: polynomial_function_ok [OF r assms(2)] Cons.IH [OF rest]
        np_random_normal_def case_prod_unfold)
qed

lemma apply_rows_short:
  assumes "length r = nat f" "f < 5"
  shows "apply_rows (polynomial_function rs f) (map (zip (map feature_label [1..f])) (r # rws)) g
     = Inl IndexError"
  by (simp add: polynomial_function_short [OF assms])

subsection \<open>The whole run\<close>

lemma cell_val_Float: "map cell_val (map Float xs) = xs"
  by (induction xs) simp_all

lemma demands_of_cells:
  "map (\<lambda>(r, e). demand_of (map cell_val r) e) (zip (map (map Float) m) es)
     = map (\<lambda>(r, e). demand_of r e) (zip m es)"
  by (rule nth_equalityI) (simp_all add: comp_def)

lemma apply_axis1_ok:
  assumes "m \<noteq> []" "\<forall>r\<in>set m. length r = nat f" "5 \<le> f"
  shows "apply_axis1 (polynomial_function rs f) (DataFrame m (map feature_label [1..f])) g
     = Inr (ResultSeries (map (\<lambda>(r, e). demand_of r e) (zip m (noise_draws rs (length m) g))),
            after_normals rs (length m) g)"
proof -
  have widths: "\<forall>r\<in>set (map (map Float) m). length r = nat f"
    using assms(2) by simp
  have ne: "map feature_label [1..f] \<noteq> []" using assms(3) by auto
  show ?thesis
    using assms(1) ne apply_rows_ok [OF widths assms(3), of rs g]
    by (simp add: apply_axis1_def DataFrame_def demands_of_cells)
qed

lemma apply_axis1_short:
  assumes "m \<noteq> []" "\<forall>r\<in>set m. length r = nat f" "1 \<le> f" "f < 5"
  shows "apply_axis1 (polynomial_function rs f) (DataFrame m (map feature_label [1..f])) g
     = Inl IndexError"
proof -
  obtain r rest where m: "m = r # rest" using assms(1) by (cases m) auto
  have "length (map Float r) = nat f" using assms(2) m by simp
  then have "apply_rows (polynomial_function rs f)
      (map (zip (map feature_label [1..f])) (map Float r # map (map Float) rest)) g = Inl IndexError"
    using assms(4) by (rule apply_rows_short)
  moreover have "map feature_label [1..f] \<noteq> []" using assms(3) by auto
  ultimately show ?thesis
    by (simp add: apply_axis1_def DataFrame_def m)
qed

lemma set_column_series:
  assumes "length es = length m"
  shows "set_column (DataFrame (map (map (np_round 4)) m) labels) ''Demand''
       (ResultSeries (map (\<lambda>(r, e). demand_of r e) (zip (map (map (np_round 4)) m) es)))
     = Inr \<lparr>index_name = None, index = map int [0..<length m],
            columns = labels @ [''Demand''],
            rows = map (\<lambda>(r, e). table_row r e) (zip m es)\<rparr>"
proof -
  have "map (\<lambda>(r, d). r @ [Integer d])
          (zip (map (map Float) (map (map (np_round 4)) m))
               (map (\<lambda>(r, e). demand_of r e) (zip (map (map (np_round 4)) m) es)))
        = map (\<lambda>(r, e). table_row r e) (zip m es)"
    using assms by (intro nth_equalityI) (simp_all add: table_row_def)
  then show ?thesis
    by (simp add: set_column_def DataFrame_def)
qed

lemma build_table_ok:
  assumes "1 \<le> n" "5 \<le> f" "float64_finite (high - low)"
  shows "build_table rs n f low high g =
     Inr (\<lparr>index_name = Some ''Observation'', index = [1..n],
           columns = map feature_label [1..f] @ [''Demand''],
           rows = map (\<lambda>(r, e). table_row r e)
                    (zip (fst (uniform_rows rs low high (nat n) (nat f) g))
                         (noise_draws rs (nat n) (after_samples rs (nat n * nat f) g)))\<rparr>,
          after_normals rs (nat n) (after_samples rs (nat n * nat f) g))"
proof -
  define m where "m = fst (uniform_rows rs low high (nat n) (nat f) g)"
  define g1 where "g1 = after_samples rs (nat n * nat f) g"
  define m' where "m' = map (map (np_round 4)) m"
  define es where "es = noise_draws rs (nat n) g1"
  have len_m: "length m = nat n" by (simp add: m_def)
  have u: "uniform_rows rs low high (nat n) (nat f) g = (m, g1)"
    by (simp add: m_def g1_def prod_eq_iff uniform_rows_state)
  have "m' \<noteq> []" using assms(1) len_m by (auto simp: m'_def)
  moreover have "\<forall>r\<in>set m'. length r = nat f"
    by (auto simp: m'_def m_def dest: uniform_rows_row_length)
  ultimately have a: "apply_axis1 (polynomial_function rs f) (DataFrame m' (map feature_label [1..f])) g1
      = Inr (ResultSeries (map (\<lambda>(r, e). demand_of r e) (zip m' es)), after_normals rs (nat n) g1)"
    using apply_axis1_ok [of m' f rs g1] assms(2) by (simp add: es_def m'_def len_m)
  have s: "set_column (DataFrame m' (map feature_label [1..f])) ''Demand''
       (ResultSeries (map (\<lambda>(r, e). demand_of r e) (zip m' es)))
     = Inr \<lparr>index_name = None, index = map int [0..<length m],
            columns = map feature_label [1..f] @ [''Demand''],
            rows = map (\<lambda>(r, e). table_row r e) (zip m es)\<rparr>"
    unfolding m'_def by (rule set_column_series) (simp add: es_def len_m)
  have "\<not> (n < 0 \<or> f < 0)" using assms by simp
  with assms(3) have "build_table rs n f low high g =
     Inr (\<lparr>index_name = None, index = map int [0..<length m],
            columns = map feature_label [1..f] @ [''Demand''],
            rows = map (\<lambda>(r, e). table_row r e) (zip m es)\<rparr>
          \<lparr>index := [1..int (length (map (\<lambda>(r, e). table_row r e) (zip m es)))],
            index_name := Some ''Observation''\<rparr>, after_normals rs (nat n) g1)"
    unfolding build_table_def np_random_uniform_def Let_def
    by (simp only: not_True_eq_False if_False sum.case prod.case u m'_def [symmetric] a s frame.simps)
  also have "length (map (\<lambda>(r, e). table_row r e) (zip m es)) = nat n"
    by (simp add: es_def len_m)
  finally show ?thesis
    using assms(1) by (simp add: m_def g1_def es_def)
qed

lemma build_table_overflow:
  assumes "\<not> float64_finite (high - low)"
  shows "build_table rs n f low high g = Inl OverflowError"
  using assms by (simp add: build_table_def np_random_uniform_def)

lemma build_table_negative:
  assumes "n < 0 \<or> f < 0" "float64_finite (high - low)"
  shows "build_table rs n f low high g = Inl ValueError"
  using assms by (auto simp: build_table_def np_random_uniform_def)

lemma build_table_short:
  assumes "1 \<le> n" "1 \<le> f" "f < 5" "float64_finite (high - low)"
  shows "build_table rs n f low high g = Inl IndexError"
proof -
  define m where "m = fst (uniform_rows rs low high (nat n) (nat f) g)"
  define g1 where "g1 = snd (uniform_rows rs low high (nat n) (nat f) g)"
  define m' where "m' = map (map (np_round 4)) m"
  have u: "uniform_rows rs low high (nat n) (nat f) g = (m, g1)"
    by (simp add: m_def g1_def)
  have "length m = nat n" by (simp add: m_def)
  then have "m' \<noteq> []" using assms(1) by (auto simp: m'_def)
  moreover have "\<forall>r\<in>set m'. length r = nat f"
    by (auto simp: m'_def m_def dest: uniform_rows_row_length)
  ultimately have a: "apply_axis1 (polynomial_function rs f) (DataFrame m' (map feature_label [1..f])) g1
      = Inl IndexError"
    using assms(2,3) by (rule apply_axis1_short)
  have "\<not> (n < 0 \<or> f < 0)" using assms by simp
  with assms(4) show ?thesis
    unfolding build_table_def np_random_uniform_def Let_def
    by (simp only: not_True_eq_False if_False sum.case prod.case u m'_def [symmetric] a)
qed

lemma build_table_no_columns:
  assumes "0 \<le> n" "f = 0" "float64_finite (high - low)"
  shows "build_table rs n f low high g = Inl ValueError"
  using assms
  by (simp add: build_table_def np_random_uniform_def DataFrame_def apply_axis1_def
      set_column_def case_prod_unfold)

lemma build_table_no_rows:
  assumes "n = 0" "0 \<le> f" "float64_finite (high - low)"
  shows "build_table rs n f low high g =
     (if f = 1 then Inr (\<lparr>index_name = Some ''Observation'', index = [],
                           columns = [feature_label 1, ''Demand''], rows = []\<rparr>, g)
      else Inl ValueError)"
  using assms
  by (simp add: build_table_def np_random_uniform_def DataFrame_def apply_axis1_def
      set_column_def upto.simps)

lemma gen_data_seeded:
  assumes "0 \<le> seed" "seed < 2 ^ 32"
  shows "gen_data rs seed n f low high g = build_table rs n f low high (seed_state rs (nat seed))"
  using assms by (simp add: gen_data_def np_random_seed_def)

lemma gen_data_bad_seed:
  assumes "seed < 0 \<or> 2 ^ 32 \<le> seed"
  shows "gen_data rs seed n f low high g = Inl ValueError"
  using assms by (auto simp: gen_data_def np_random_seed_def)

lemma gen_data_ok:
  assumes "0 \<le> seed" "seed < 2 ^ 32" "1 \<le> n" "5 \<le> f" "float64_finite (high - low)"
  shows "gen_data rs seed n f low high g =
     Inr (\<lparr>index_name = Some ''Observation'', index = [1..n],
           columns = map feature_label [1..f] @ [''Demand''],
           rows = map (\<lambda>(r, e). table_row r e)
                    (zip (sampled rs seed n f low high)
                         (noise_draws rs (nat n) (noise_state rs seed n f)))\<rparr>,
          after_normals rs (nat n) (noise_state rs seed n f))"
  by (simp add: gen_data_seeded [OF assms(1,2)] build_table_ok [OF assms(3,4,5)]
      sampled_def noise_state_def)

lemma gen_data_Inr:
  assumes "gen_data rs seed n f low high g = Inr (t, g')"
  shows "t = \<lparr>index_name = Some ''Observation'', index = [1..n],
           columns = map feature_label [1..f] @ [''Demand''],
           rows = map (\<lambda>(r, e). table_row r e)
                    (zip (sampled rs seed n f low high)
                         (noise_draws rs (nat n) (noise_state rs seed n f)))\<rparr>"
    and "g' = after_normals rs (nat n) (noise_state rs seed n f)"
    and "0 \<le> seed" and "seed < 2 ^ 32" and "0 \<le> n" and "1 \<le> f" and "n = 0 \<or> 5 \<le> f"
    and "float64_finite (high - low)"
proof -
  have seed: "0 \<le> seed \<and> seed < 2 ^ 32"
  proof (rule ccontr)
    assume "\<not> (0 \<le> seed \<and> seed < 2 ^ 32)"
    then have "seed < 0 \<or> 2 ^ 32 \<le> seed" by linarith
    then have "gen_data rs seed n f low high g = Inl ValueError" by (rule gen_data_bad_seed)
    with assms show False by simp
  qed
  then show "0 \<le> seed" "seed < 2 ^ 32" by simp_all
  have b: "build_table rs n f low high (seed_state rs (nat seed)) = Inr (t, g')"
    using assms seed by (simp add: gen_data_seeded)
  show w: "float64_finite (high - low)"
  proof (rule ccontr)
    assume "\<not> float64_finite (high - low)"
    then have "build_table rs n f low high (seed_state rs (nat seed)) = Inl OverflowError"
      by (rule build_table_overflow)
    with b show False by simp
  qed
  have nf: "0 \<le> n \<and> 0 \<le> f"
  proof (rule ccontr)
    assume "\<not> (0 \<le> n \<and> 0 \<le> f)"
    then have "n < 0 \<or> f < 0" by linarith
    then have "build_table rs n f low high (seed_state rs (nat seed)) = Inl ValueError"
      using w by (rule build_table_negative)
    with b show False by simp
  qed
  then show "0 \<le> n" by simp
  have f0: "f \<noteq> 0"
    using build_table_no_columns [of n f high low rs "seed_state rs (nat seed)"] nf b w by auto
  then show "1 \<le> f" using nf by linarith
  show "n = 0 \<or> 5 \<le> f"
  proof (rule ccontr)
    assume "\<not> (n = 0 \<or> 5 \<le> f)"
    then have "1 \<le> n" "1 \<le> f" "f < 5" using nf f0 by linarith+
    then have "build_table rs n f low high (seed_state rs (nat seed)) = Inl IndexError"
      using w by (rule build_table_short)
    with b show False by simp
  qed
  then consider "n = 0" | "1 \<le> n" "5 \<le> f" using nf by linarith
  then have "t = \<lparr>index_name = Some ''Observation'', index = [1..n],
           columns = map feature_label [1..f] @ [''Demand''],
           rows = map (\<lambda>(r, e). table_row r e)
                    (zip (sampled rs seed n f low high)
                         (noise_draws rs (nat n) (noise_state rs seed n f)))\<rparr>
      \<and> g' = after_normals rs (nat n) (noise_state rs seed n f)"
  proof cases
    case 1
    then have "f = 1"
      using build_table_no_rows [of n f high low rs "seed_state rs (nat seed)"] nf b w
      by (auto split: if_splits)
    with 1 show ?thesis
      using build_table_no_rows [of n f high low rs "seed_state rs (nat seed)"] b w
      by (simp add: sampled_def noise_state_def upto.simps)
  next
    case 2
    from gen_data_ok [OF \<open>0 \<le> seed\<close> \<open>seed < 2 ^ 32\<close> 2 w, of rs g] assms
    show ?thesis by simp
  qed
  then show "t = \<lparr>index_name = Some ''Observation'', index = [1..n],
           columns = map feature_label [1..f] @ [''Demand''],
           rows = map (\<lambda>(r, e). table_row r e)
                    (zip (sampled rs seed n f low high)
                         (noise_draws rs (nat n) (noise_state rs seed n f)))\<rparr>"
    and "g' = after_normals rs (nat n) (noise_state rs seed n f)" by simp_all
qed

lemma sampled_length [simp]: "length (sampled rs seed n f low high) = nat n"
  by (simp add: sampled_def)

lemma sampled_row_length:
  "i < nat n \<Longrightarrow> length (sampled rs seed n f low high ! i) = nat f"
  by (simp add: sampled_def uniform_rows_row)

lemma gen_data_rows:
  assumes "gen_data rs seed n f low high g = Inr (t, g')"
  shows "length (rows t) = nat n"
    and "i < nat n \<Longrightarrow> rows t ! i =
       table_row (sampled rs seed n f low high ! i) (noise_draws rs (nat n) (noise_state rs seed n f) ! i)"
  by (simp_all add: gen_data_Inr(1) [OF assms])

lemma table_row_nth:
  assumes "length r = k"
  shows "j < k \<Longrightarrow> table_row r e ! j = Float (np_round 4 (r ! j))"
    and "table_row r e ! k = Integer (demand_of (map (np_round 4) r) e)"
    and "length (table_row r e) = k + 1"
    and "map cell_val (take k (table_row r e)) = map (np_round 4) r"
  using assms by (simp_all add: table_row_def nth_append comp_def)

subsection \<open>Evaluation on concrete draws\<close>

lemma uniform_list_numeral:
  "uniform_list rs low high (numeral k) g =
     (case uniform1 rs low high g of (x, g1) \<Rightarrow>
        (case uniform_list rs low high (pred_numeral k) g1 of (xs, g2) \<Rightarrow> (x # xs, g2)))"
  by (simp add: numeral_eq_Suc)

lemma uniform_rows_numeral:
  "uniform_rows rs low high (numeral k) f g =
     (case uniform_list rs low high f g of (r, g1) \<Rightarrow>
        (case uniform_rows rs low high (pred_numeral k) f g1 of (m, g2) \<Rightarrow> (r # m, g2)))"
  by (simp add: numeral_eq_Suc)

lemma uniform_list_1:
  "uniform_list rs low high 1 g = (case uniform1 rs low high g of (x, g1) \<Rightarrow> ([x], g1))"
  by (simp add: case_prod_unfold)

lemma uniform_rows_1:
  "uniform_rows rs low high 1 f g = (case uniform_list rs low high f g of (r, g1) \<Rightarrow> ([r], g1))"
  by (simp add: case_prod_unfold)

lemma feature_labels_5:
  "map feature_label [1..5] = [''Feature_1'', ''Feature_2'', ''Feature_3'', ''Feature_4'', ''Feature_5'']"
  by code_simp

lemma feature_label_upto_5:
  "feature_label 1 = ''Feature_1''" "feature_label 2 = ''Feature_2''" "feature_label 3 = ''Feature_3''"
  "feature_label 4 = ''Feature_4''" "feature_label 5 = ''Feature_5''"
  by code_simp+

lemma mod_length_2: "k mod Suc (Suc 0) = k mod 2"
proof -
  have "Suc (Suc 0) = 2" by simp
  then show ?thesis by (simp only:)
qed

lemma mod_length_5: "k mod Suc (Suc (Suc (Suc (Suc 0)))) = k mod 5"
proof -
  have "Suc (Suc (Suc (Suc (Suc 0)))) = 5" by simp
  then show ?thesis by (simp only:)
qed

lemma float64_finite_small: "\<bar>x\<bar> \<le> 3 \<Longrightarrow> float64_finite x"
proof -
  assume x: "\<bar>x\<bar> \<le> 3"
  have "(2::real) ^ 970 \<le> 2 ^ 1023" by (rule power_increasing) simp_all
  moreover have "(2::real) ^ 1024 = 2 * 2 ^ 1023" by simp
  moreover have "(2::real) ^ 2 \<le> 2 ^ 1023" by (rule power_increasing) simp_all
  ultimately have "(4::real) \<le> 2 ^ 1024 - 2 ^ 970" by simp
  with x show ?thesis by (simp add: float64_finite_def)
qed

lemma float64_finite_script [simp]: "float64_finite 3" "float64_finite (- 3)"
  by (simp_all add: float64_finite_small)

lemmas run_simps = mod_length_2 mod_length_5 gen_data_def np_random_seed_def build_table_def np_random_uniform_def
  replay_source_def uniform1_def DataFrame_def apply_axis1_def polynomial_function_def
  series_get_def np_random_normal_def uniform_list_numeral uniform_rows_numeral
  uniform_list_1 uniform_rows_1
  set_column_def poly_value_def np_round_def py_round_def Let_def
  feature_labels_5 feature_label_upto_5 upt_rec upto.simps power3_eq_cube

lemma recorded_run: "gen_data recorded_source 123 2 5 (- 1) 2 0 = Inr (recorded_table, 12)"
  by (simp add: recorded_source_def recorded_table_def feature_columns_def run_simps
      del: One_nat_def)

lemma constant_run: "gen_data constant_source 123 1 5 (- 1) 2 0 = Inr (constant_table, 6)"
  by (simp add: constant_source_def constant_table_def feature_columns_def run_simps
      del: One_nat_def)

lemma inverted_run: "gen_data inverted_source 123 1 5 2 (- 1) 0 = Inr (inverted_table, 6)"
  by (simp add: inverted_source_def inverted_table_def feature_columns_def run_simps
      del: One_nat_def)

lemma unit_samples_replay:
  assumes "us \<noteq> []" "\<forall>u\<in>set us. 0 \<le> u \<and> u < 1"
  shows "unit_samples (replay_source us zs)"
proof -
  have "us ! (k mod length us) \<in> set us" for k
    using assms(1) by (intro nth_mem) simp
  then show ?thesis
    using assms(2) by (simp add: unit_samples_def replay_source_def)
qed

lemma unit_samples_recorded: "unit_samples recorded_source"
  unfolding recorded_source_def by (rule unit_samples_replay) simp_all

lemma recorded_rows: "0 < length (rows recorded_table)" "1 < length (rows recorded_table)"
  by (simp_all add: recorded_table_def)

lemma constant_rows: "0 < length (rows constant_table)"
  by (simp add: constant_table_def)

subsection \<open>Cells of the generated table\<close>

lemma np_round4_up_to_2:
  assumes "199995 / 100000 \<le> x" "x < 2"
  shows "np_round 4 x = 2"
proof -
  have "\<lfloor>x * 10 ^ 4\<rfloor> = 19999" using assms by (intro floor_unique) simp_all
  then have "py_round (x * 10 ^ 4) = 20000"
    using assms by (simp add: py_round_def Let_def)
  then show ?thesis by (simp add: np_round_def)
qed

lemma sampled_nth:
  assumes "i < nat n" "j < nat f"
  shows "sampled rs seed n f low high ! i ! j
     = low + (high - low) * fst (random_sample rs (after_samples rs (i * nat f + j) (seed_state rs (nat seed))))"
  using assms by (simp add: sampled_def uniform_rows_nth)

lemma sampled_bounds:
  assumes "unit_samples rs" "i < nat n" "j < nat f" "low < high"
  shows "low \<le> sampled rs seed n f low high ! i ! j" "sampled rs seed n f low high ! i ! j < high"
proof -
  define u where "u = fst (random_sample rs (after_samples rs (i * nat f + j) (seed_state rs (nat seed))))"
  have u: "0 \<le> u" "u < 1" using assms(1) by (simp_all add: unit_samples_def u_def)
  have s: "sampled rs seed n f low high ! i ! j = low + (high - low) * u"
    using assms(2,3) by (simp add: sampled_nth u_def)
  have "0 \<le> (high - low) * u" using u(1) assms(4) by simp
  then show "low \<le> sampled rs seed n f low high ! i ! j" by (simp add: s)
  have "(high - low) * u < (high - low) * 1"
    using u(2) assms(4) by (intro mult_strict_left_mono) simp_all
  then show "sampled rs seed n f low high ! i ! j < high" by (simp add: s)
qed

lemma gen_data_cell:
  assumes "gen_data rs seed n f low high g = Inr (t, g')" "i < length (rows t)"
  shows "j < nat f \<Longrightarrow> rows t ! i ! j = Float (np_round 4 (sampled rs seed n f low high ! i ! j))"
    and "rows t ! i ! nat f = Integer (demand_of (map (np_round 4) (sampled rs seed n f low high ! i))
           (noise_draws rs (nat n) (noise_state rs seed n f) ! i))"
    and "length (rows t ! i) = nat f + 1"
    and "map cell_val (take (nat f) (rows t ! i)) = map (np_round 4) (sampled rs seed n f low high ! i)"
proof -
  have i: "i < nat n" using assms by (simp add: gen_data_rows(1))
  have r: "rows t ! i = table_row (sampled rs seed n f low high ! i)
      (noise_draws rs (nat n) (noise_state rs seed n f) ! i)"
    using assms(1) i by (rule gen_data_rows(2))
  have l: "length (sampled rs seed n f low high ! i) = nat f"
    using i by (rule sampled_row_length)
  show "j < nat f \<Longrightarrow> rows t ! i ! j = Float (np_round 4 (sampled rs seed n f low high ! i ! j))"
    unfolding r by (rule table_row_nth(1) [OF l])
  show "rows t ! i ! nat f = Integer (demand_of (map (np_round 4) (sampled rs seed n f low high ! i))
           (noise_draws rs (nat n) (noise_state rs seed n f) ! i))"
    unfolding r by (rule table_row_nth(2) [OF l])
  show "length (rows t ! i) = nat f + 1"
    unfolding r by (rule table_row_nth(3) [OF l])
  show "map cell_val (take (nat f) (rows t ! i)) = map (np_round 4) (sampled rs seed n f low high ! i)"
    unfolding r by (rule table_row_nth(4) [OF l])
qed

lemma gen_data_columns:
  assumes "gen_data rs seed n f low high g = Inr (t, g')"
  shows "columns t = map feature_label [1..f] @ [''Demand'']"
    and "j < nat f \<Longrightarrow> columns t ! j = feature_label (int j + 1)"
    and "columns t ! nat f = ''Demand''"
proof -
  show c: "columns t = map feature_label [1..f] @ [''Demand'']"
    by (simp add: gen_data_Inr(1) [OF assms])
  show "j < nat f \<Longrightarrow> columns t ! j = feature_label (int j + 1)"
    unfolding c by (simp add: nth_append add.commute)
  show "columns t ! nat f = ''Demand''"
    unfolding c by (simp add: nth_append)
qed

lemma after_samples_numeral:
  "after_samples rs (numeral k) g = after_samples rs (pred_numeral k) (snd (random_sample rs g))"
  by (simp add: numeral_eq_Suc)

lemma noise_draws_1:
  "noise_draws rs 1 g = [fst (np_random_normal rs 4 2 g)]"
  by (simp add: case_prod_unfold)

lemma constant_noise:
  "noise_draws constant_source (nat 1) (noise_state constant_source 123 1 5) ! 0 = 9 / 2"
  by (simp add: noise_state_def constant_source_def replay_source_def after_samples_numeral
      noise_draws_1 np_random_normal_def del: One_nat_def)

lemma constant_pre_round:
  "12 * poly_value (map cell_val (take (nat 5) (rows constant_table ! 0)))
     + noise_draws constant_source (nat 1) (noise_state constant_source 123 1 5) ! 0 = 57 / 2"
  by (simp only: constant_noise) (simp add: constant_table_def poly_value_def)

lemma cell_text_row:
  "map (cell_text float_repr) (map Float r @ [Integer d]) = map float_repr r @ [string_of_int d]"
  by (simp add: comp_def)

lemma digit_chars:
  "char_of (48::nat) = CHR ''0''" "char_of (49::nat) = CHR ''1''" "char_of (50::nat) = CHR ''2''"
  "char_of (51::nat) = CHR ''3''" "char_of (52::nat) = CHR ''4''" "char_of (53::nat) = CHR ''5''"
  "char_of (54::nat) = CHR ''6''" "char_of (55::nat) = CHR ''7''" "char_of (56::nat) = CHR ''8''"
  "char_of (57::nat) = CHR ''9''"
  by code_simp+

subsection \<open>The text of a cell, and the runs without a table\<close>

lemma is_digit_char_of:
  assumes "(d::nat) < 10"
  shows "is_digit (char_of (48 + d))"
proof -
  from assms have "d = 0 \<or> d = 1 \<or> d = 2 \<or> d = 3 \<or> d = 4 \<or> d = 5
    \<or> d = 6 \<or> d = 7 \<or> d = 8 \<or> d = 9" by arith
  then show ?thesis
    by (auto simp: is_digit_def digit_chars)
qed

lemma is_digit_not_point: "is_digit c \<Longrightarrow> c \<noteq> CHR ''.''"
  by (auto simp: is_digit_def)

lemma string_of_nat_no_point: "CHR ''.'' \<notin> set (string_of_nat n)"
proof
  assume "CHR ''.'' \<in> set (string_of_nat n)"
  then have "(48::nat) \<le> of_char CHR ''.''" by (rule string_of_nat_digits)
  then show False by simp
qed

lemma fraction_digits_shape:
  "length (fraction_digits k) \<le> 4" "list_all is_digit (fraction_digits k)"
proof -
  define ds where "ds = [char_of (48 + k div 1000 mod 10), char_of (48 + k div 100 mod 10),
                char_of (48 + k div 10 mod 10), char_of (48 + k mod 10)]"
  define s where "s = rev (dropWhile (\<lambda>c. c = CHR ''0'') (rev ds))"
  have f: "fraction_digits k = (if s = [] then ''0'' else s)"
    by (simp add: fraction_digits_def ds_def s_def Let_def)
  have d: "list_all is_digit ds"
    by (simp add: ds_def is_digit_char_of)
  have "length s \<le> length (rev ds)"
    using length_dropWhile_le [of "\<lambda>c. c = CHR ''0''" "rev ds"] by (simp add: s_def)
  then have l: "length s \<le> 4" by (simp add: ds_def)
  have "set s \<subseteq> set ds"
    by (auto simp: s_def dest: set_dropWhileD)
  with d have a: "list_all is_digit s" by (auto simp: list_all_iff)
  have z: "is_digit CHR ''0''" by (simp add: is_digit_def)
  show "length (fraction_digits k) \<le> 4" using l by (simp add: f)
  show "list_all is_digit (fraction_digits k)" using a z by (simp add: f)
qed

lemma after_point_append:
  assumes "CHR ''.'' \<notin> set pre"
  shows "after_point (pre @ CHR ''.'' # rest) = rest"
proof -
  have "dropWhile (\<lambda>c. c \<noteq> CHR ''.'') (pre @ CHR ''.'' # rest) = CHR ''.'' # rest"
    using assms by (subst dropWhile_append2) auto
  then show ?thesis by (simp add: after_point_def)
qed

lemma decimals_decimal_text: "decimals_at_most 4 (decimal_text k)"
proof -
  define pre where "pre = (if k < 0 then ''-'' else []) @ string_of_nat (nat \<bar>k\<bar> div 10000)"
  define rest where "rest = fraction_digits (nat \<bar>k\<bar> mod 10000)"
  have t: "decimal_text k = pre @ CHR ''.'' # rest"
    by (simp add: decimal_text_def pre_def rest_def Let_def)
  have "CHR ''.'' \<notin> set pre"
    using string_of_nat_no_point by (simp add: pre_def)
  then have "after_point (decimal_text k) = rest"
    unfolding t by (rule after_point_append)
  then show ?thesis
    using fraction_digits_shape [of "nat \<bar>k\<bar> mod 10000"]
    by (simp add: decimals_at_most_def rest_def t)
qed

lemma decimals_zero: "decimals_at_most 4 ''0.0''" "decimals_at_most 4 ''-0.0''"
  by (simp_all add: decimals_at_most_def after_point_def is_digit_def)

lemma decimals_on_grid:
  assumes "repr_on_grid float_repr" "\<bar>k\<bar> \<le> 20000"
  shows "decimals_at_most 4 (float_repr (real_of_int k / 10 ^ 4))"
proof (cases "k = 0")
  case True
  then show ?thesis
    using assms(1) decimals_zero by (auto simp: repr_on_grid_def)
next
  case False
  with assms have "float_repr (real_of_int k / 10 ^ 4) = decimal_text k"
    by (simp add: repr_on_grid_def)
  then show ?thesis by (simp add: decimals_decimal_text)
qed

lemma decimal4_on_grid: "decimal4 (real_of_int k / 10 ^ 4) = decimal_text k"
  by (simp add: decimal4_def)

lemma decimal_text_0: "decimal_text 0 = ''0.0''"
  by (simp add: decimal_text_def fraction_digits_def string_of_nat.simps digit_chars)

lemma repr_on_grid_decimal4: "repr_on_grid decimal4"
  unfolding repr_on_grid_def
proof (intro conjI allI impI)
  fix k :: int
  show "decimal4 (real_of_int k / 10 ^ 4) = decimal_text k" by (rule decimal4_on_grid)
next
  have "decimal4 0 = ''0.0''"
    using decimal4_on_grid [of 0] by (simp add: decimal_text_0)
  then show "decimal4 0 = ''0.0'' \<or> decimal4 0 = ''-0.0''" by simp
qed

lemma np_round4_grid:
  assumes "- 1 \<le> x" "x \<le> 2"
  shows "\<exists>k::int. \<bar>k\<bar> \<le> 20000 \<and> np_round 4 x = real_of_int k / 10 ^ 4"
proof -
  define k where "k = py_round (x * 10 ^ 4)"
  have "- 10000 \<le> k" unfolding k_def using assms(1) by (intro py_round_ge) simp
  moreover have "k \<le> 20000" unfolding k_def using assms(2) by (intro py_round_le) simp
  ultimately have "\<bar>k\<bar> \<le> 20000" by simp
  then show ?thesis by (auto simp: np_round_def k_def)
qed

lemmas csv_simps = to_csv_def csv_fields_def feature_columns_def decimal4_def decimal_text_def
  fraction_digits_def string_of_int_def string_of_nat.simps digit_chars Let_def

lemma recorded_csv:
  "to_csv decimal4 recorded_table =
     [''Observation,Feature_1,Feature_2,Feature_3,Feature_4,Feature_5,Demand'',
      ''1,1.25,-1.0,-0.25,0.5,0.0,21'',
      ''2,1.25,-1.0,-0.25,0.5,0.0,18'']"
  by (simp add: recorded_table_def csv_simps)

lemma csv_lines:
  assumes "gen_data rs seed n f low high g = Inr (t, g')"
  defines "fs \<equiv> map (map (np_round 4)) (sampled rs seed n f low high)"
    and "ds \<equiv> map (\<lambda>(r, e). demand_of (map (np_round 4) r) e)
                 (zip (sampled rs seed n f low high) (noise_draws rs (nat n) (noise_state rs seed n f)))"
  shows "rows t = map (\<lambda>(r, d). map Float r @ [Integer d]) (zip fs ds)"
    and "to_csv float_repr t =
         join '','' (''Observation'' # map feature_label [1..f] @ [''Demand''])
         # map (\<lambda>i. join '','' (string_of_int (int i + 1) # map float_repr (fs ! i)
                                  @ [string_of_int (ds ! i)])) [0..<nat n]"
proof -
  define m where "m = sampled rs seed n f low high"
  define es where "es = noise_draws rs (nat n) (noise_state rs seed n f)"
  have fs: "fs = map (map (np_round 4)) m" by (simp add: fs_def m_def)
  have ds: "ds = map (\<lambda>(r, e). demand_of (map (np_round 4) r) e) (zip m es)"
    by (simp add: ds_def m_def es_def)
  have t: "t = \<lparr>index_name = Some ''Observation'', index = [1..n],
           columns = map feature_label [1..f] @ [''Demand''],
           rows = map (\<lambda>(r, e). table_row r e) (zip m es)\<rparr>"
    unfolding m_def es_def by (rule gen_data_Inr(1) [OF assms(1)])
  have len: "length m = nat n" "length es = nat n" "length fs = nat n" "length ds = nat n"
    by (simp_all add: m_def es_def fs ds)
  show rows: "rows t = map (\<lambda>(r, d). map Float r @ [Integer d]) (zip fs ds)"
    unfolding t by (rule nth_equalityI) (simp_all add: len fs ds table_row_def)
  have lines: "map (\<lambda>(i, r). string_of_int i # map (cell_text float_repr) r) (zip [1..n] (rows t))
      = map (\<lambda>i. string_of_int (int i + 1) # map float_repr (fs ! i) @ [string_of_int (ds ! i)]) [0..<nat n]"
    unfolding rows
    by (rule nth_equalityI) (simp_all add: len cell_text_row add.commute)
  show "to_csv float_repr t =
         join '','' (''Observation'' # map feature_label [1..f] @ [''Demand''])
         # map (\<lambda>i. join '','' (string_of_int (int i + 1) # map float_repr (fs ! i)
                                  @ [string_of_int (ds ! i)])) [0..<nat n]"
    using lines by (simp add: to_csv_def csv_fields_def t comp_def)
qed

lemma rounded_cell:
  assumes "unit_samples rs" "i < nat n" "j < nat f"
  shows "\<exists>k::int. \<bar>k\<bar> \<le> 20000
     \<and> np_round 4 (sampled rs seed n f (- 1) 2 ! i ! j) = real_of_int k / 10 ^ 4"
proof -
  have "- 1 \<le> sampled rs seed n f (- 1) 2 ! i ! j" "sampled rs seed n f (- 1) 2 ! i ! j < 2"
    using sampled_bounds [OF assms, of "- 1" 2 seed] by simp_all
  then show ?thesis by (intro np_round4_grid) simp_all
qed

lemma script_header:
  "join '','' (''Observation'' # map feature_label [1..5] @ [''Demand''])
     = ''Observation,Feature_1,Feature_2,Feature_3,Feature_4,Feature_5,Demand''"
  by (simp add: feature_labels_5)

lemma unit_samples_inverted: "unit_samples inverted_source"
  unfolding inverted_source_def by (rule unit_samples_replay) simp_all

lemma sampled_inverted:
  assumes "unit_samples rs" "i < nat n" "j < nat f"
  shows "- 1 < sampled rs seed n f 2 (- 1) ! i ! j" "sampled rs seed n f 2 (- 1) ! i ! j \<le> 2"
proof -
  define u where "u = fst (random_sample rs (after_samples rs (i * nat f + j) (seed_state rs (nat seed))))"
  have u: "0 \<le> u" "u < 1" using assms(1) by (simp_all add: unit_samples_def u_def)
  have s: "sampled rs seed n f 2 (- 1) ! i ! j = 2 + (- 1 - 2) * u"
    using assms(2,3) by (simp add: sampled_nth u_def)
  show "- 1 < sampled rs seed n f 2 (- 1) ! i ! j" using u(2) by (simp add: s)
  show "sampled rs seed n f 2 (- 1) ! i ! j \<le> 2" using u(1) by (simp add: s)
qed

lemma gen_data_empty:
  assumes "0 \<le> seed" "seed < 2 ^ 32" "float64_finite (high - low)"
    and "n \<le> 0 \<or> f \<le> 0" and "\<not> (n = 0 \<and> f = 1)"
  shows "gen_data rs seed n f low high g = Inl ValueError"
proof -
  consider "n < 0 \<or> f < 0" | "0 \<le> n" "f = 0" | "n = 0" "0 \<le> f" "f \<noteq> 1"
    using assms(4,5) by linarith
  then have "build_table rs n f low high (seed_state rs (nat seed)) = Inl ValueError"
  proof cases
    case 1
    then show ?thesis using assms(3) by (rule build_table_negative)
  next
    case 2
    then show ?thesis using assms(3) by (rule build_table_no_columns)
  next
    case 3
    from build_table_no_rows [OF 3(1,2) assms(3), of rs "seed_state rs (nat seed)"] 3(3)
    show ?thesis by simp
  qed
  then show ?thesis by (simp add: gen_data_seeded [OF assms(1,2)])
qed

section \<open>The claims\<close>

text \<open>
  Claim C1 (formula consistency). In every row of the generated table the cell under
  \<open>Demand\<close> is \<open>round(12 * (2 + 0.3 f1 + 0.5 f2^3 + 0.7 f3 f4 + 0.9 (f2 + f4) + sin f5) + noise)\<close>,
  where \<open>f1 .. f5\<close> are the cells of that row under \<open>Feature_1 .. Feature_5\<close>, each the
  sampled value rounded to four decimals, and the noise is the draw of
  \<open>np.random.normal(4, 2)\<close> made for that row: the \<open>i\<close>-th of the draws that follow the
  sampling of the matrix.
\<close>

theorem demand_formula:
  assumes "gen_data rs seed n f low high g = Inr (t, g')" and "i < length (rows t)"
  shows "columns t ! nat f = ''Demand''
     \<and> rows t ! i ! nat f =
         Integer (py_round (12 * (2 + 3 / 10 * cell_val (rows t ! i ! 0)
                                    + 5 / 10 * cell_val (rows t ! i ! 1) ^ 3
                                    + 7 / 10 * cell_val (rows t ! i ! 2) * cell_val (rows t ! i ! 3)
                                    + 9 / 10 * (cell_val (rows t ! i ! 1) + cell_val (rows t ! i ! 3))
                                    + sin (cell_val (rows t ! i ! 4)))
                           + noise_draws rs (nat n) (noise_state rs seed n f) ! i))
     \<and> (\<forall>j<5. columns t ! j = feature_label (int j + 1)
            \<and> rows t ! i ! j = Float (np_round 4 (sampled rs seed n f low high ! i ! j)))"
proof -
  have i: "i < nat n" using assms by (simp add: gen_data_rows(1))
  then have "n \<noteq> 0" by auto
  then have f: "5 \<le> f" using gen_data_Inr(7) [OF assms(1)] by simp
  then have f5: "5 \<le> nat f" by linarith
  have l: "length (sampled rs seed n f low high ! i) = nat f"
    using i by (rule sampled_row_length)
  have cells: "rows t ! i ! j = Float (np_round 4 (sampled rs seed n f low high ! i ! j))"
    if "j < 5" for j
    using gen_data_cell(1) [OF assms, of j] that f5 by simp
  have vals: "cell_val (rows t ! i ! j) = map (np_round 4) (sampled rs seed n f low high ! i) ! j"
    if "j < 5" for j
    using cells [OF that] that f5 l by simp
  have "rows t ! i ! nat f = Integer (demand_of (map (np_round 4) (sampled rs seed n f low high ! i))
           (noise_draws rs (nat n) (noise_state rs seed n f) ! i))"
    by (rule gen_data_cell(2) [OF assms])
  then have d: "rows t ! i ! nat f =
         Integer (py_round (12 * (2 + 3 / 10 * cell_val (rows t ! i ! 0)
                                    + 5 / 10 * cell_val (rows t ! i ! 1) ^ 3
                                    + 7 / 10 * cell_val (rows t ! i ! 2) * cell_val (rows t ! i ! 3)
                                    + 9 / 10 * (cell_val (rows t ! i ! 1) + cell_val (rows t ! i ! 3))
                                    + sin (cell_val (rows t ! i ! 4)))
                           + noise_draws rs (nat n) (noise_state rs seed n f) ! i))"
    by (simp only: demand_of_def poly_value_def vals [of 0] vals [of 1] vals [of 2] vals [of 3] vals [of 4])
  have cols: "columns t ! j = feature_label (int j + 1)" if "j < 5" for j
    using gen_data_columns(2) [OF assms(1), of j] that f5 by simp
  show ?thesis
    using d cells cols gen_data_columns(3) [OF assms(1)] by blast
qed

text \<open>The statement of C1 on a concrete run.\<close>

theorem demand_formula_witness:
  "columns recorded_table ! nat 5 = ''Demand''
     \<and> rows recorded_table ! 1 ! nat 5 =
         Integer (py_round (12 * (2 + 3 / 10 * cell_val (rows recorded_table ! 1 ! 0)
                                    + 5 / 10 * cell_val (rows recorded_table ! 1 ! 1) ^ 3
                                    + 7 / 10 * cell_val (rows recorded_table ! 1 ! 2)
                                        * cell_val (rows recorded_table ! 1 ! 3)
                                    + 9 / 10 * (cell_val (rows recorded_table ! 1 ! 1)
                                                + cell_val (rows recorded_table ! 1 ! 3))
                                    + sin (cell_val (rows recorded_table ! 1 ! 4)))
                           + noise_draws recorded_source (nat 2) (noise_state recorded_source 123 2 5) ! 1))
     \<and> columns recorded_table ! 4 = feature_label (int 4 + 1)
     \<and> rows recorded_table ! 1 ! 4 =
         Float (np_round 4 (sampled recorded_source 123 2 5 (- 1) 2 ! 1 ! 4))"
proof -
  note h = demand_formula [OF recorded_run recorded_rows(2)]
  have l: "(4::nat) < 5" by simp
  from h have c: "\<forall>j<5. columns recorded_table ! j = feature_label (int j + 1)
      \<and> rows recorded_table ! 1 ! j =
          Float (np_round 4 (sampled recorded_source 123 2 5 (- 1) 2 ! 1 ! j))"
    by blast
  from c [rule_format, OF l] h show ?thesis by blast
qed

text \<open>
  Claim C2 (determinism). The run begins by seeding the random source, so its result does
  not depend on the state the source was in: two runs with the same seed, \<open>N\<close>, \<open>F\<close> and
  interval return the same table and leave the same state, from any two starting states;
  for the script, the lines written are the same.
\<close>

theorem generation_deterministic:
  "gen_data rs seed n f low high g1 = gen_data rs seed n f low high g2
   \<and> gen_data_script rs float_repr g1 = gen_data_script rs float_repr g2"
  by (simp add: gen_data_script_def gen_data_def np_random_seed_def)

text \<open>The statement of C2 on a concrete run.\<close>

theorem generation_deterministic_witness:
  "gen_data recorded_source 123 2 5 (- 1) 2 0 = gen_data recorded_source 123 2 5 (- 1) 2 7
   \<and> gen_data_script recorded_source decimal4 0 = gen_data_script recorded_source decimal4 7"
  by (rule generation_deterministic)

text \<open>
  Claim C3 (failure cases), as the code has it. The script checks neither \<open>N\<close>, \<open>F\<close> nor the
  interval and has no error of its own. For an interval of finite width, a non-positive
  \<open>N\<close> or \<open>F\<close> ends the run before any output with a ValueError, raised by NumPy for a
  negative dimension and by pandas when the result of \<open>apply\<close> on the empty frame is
  assigned (the one pair left open is \<open>N = 0\<close> with \<open>F = 1\<close>). The order of the interval is
  not looked at: over \<open>low = 2\<close>, \<open>high = -1\<close>, with at least one row, at least five
  features and unit samples in \<open>[0, 1)\<close>, a table of \<open>N\<close> rows is produced, whose features
  are the values \<open>2 - 3 u\<close> of \<open>(-1, 2]\<close>, rounded.
\<close>

theorem no_configuration_check:
  assumes "0 \<le> seed" and "seed < 2 ^ 32"
  shows "(float64_finite (high - low) \<and> (n \<le> 0 \<or> f \<le> 0) \<and> \<not> (n = 0 \<and> f = 1)
            \<longrightarrow> gen_data rs seed n f low high g = Inl ValueError)
     \<and> (unit_samples rs \<and> 1 \<le> n \<and> 5 \<le> f
            \<longrightarrow> (\<exists>t g'. gen_data rs seed n f 2 (- 1) g = Inr (t, g') \<and> length (rows t) = nat n
                  \<and> (\<forall>i<nat n. \<forall>j<nat f.
                        rows t ! i ! j = Float (np_round 4 (sampled rs seed n f 2 (- 1) ! i ! j))
                        \<and> - 1 < sampled rs seed n f 2 (- 1) ! i ! j
                        \<and> sampled rs seed n f 2 (- 1) ! i ! j \<le> 2
                        \<and> - 1 \<le> cell_val (rows t ! i ! j) \<and> cell_val (rows t ! i ! j) \<le> 2)))"
proof (intro conjI impI)
  assume "float64_finite (high - low) \<and> (n \<le> 0 \<or> f \<le> 0) \<and> \<not> (n = 0 \<and> f = 1)"
  then show "gen_data rs seed n f low high g = Inl ValueError"
    using gen_data_empty [OF assms, of high low n f rs g] by blast
next
  assume h: "unit_samples rs \<and> 1 \<le> n \<and> 5 \<le> f"
  define t where "t = \<lparr>index_name = Some ''Observation'', index = [1..n],
           columns = map feature_label [1..f] @ [''Demand''],
           rows = map (\<lambda>(r, e). table_row r e)
                    (zip (sampled rs seed n f 2 (- 1))
                         (noise_draws rs (nat n) (noise_state rs seed n f)))\<rparr>"
  define s where "s = after_normals rs (nat n) (noise_state rs seed n f)"
  have run: "gen_data rs seed n f 2 (- 1) g = Inr (t, s)"
    unfolding t_def s_def using assms h by (intro gen_data_ok) simp_all
  have len: "length (rows t) = nat n" by (rule gen_data_rows(1) [OF run])
  have "rows t ! i ! j = Float (np_round 4 (sampled rs seed n f 2 (- 1) ! i ! j))
      \<and> - 1 < sampled rs seed n f 2 (- 1) ! i ! j
      \<and> sampled rs seed n f 2 (- 1) ! i ! j \<le> 2
      \<and> - 1 \<le> cell_val (rows t ! i ! j) \<and> cell_val (rows t ! i ! j) \<le> 2"
    if "i < nat n" "j < nat f" for i j
  proof -
    have i: "i < length (rows t)" using that(1) len by simp
    have c: "rows t ! i ! j = Float (np_round 4 (sampled rs seed n f 2 (- 1) ! i ! j))"
      by (rule gen_data_cell(1) [OF run i that(2)])
    have b: "- 1 < sampled rs seed n f 2 (- 1) ! i ! j" "sampled rs seed n f 2 (- 1) ! i ! j \<le> 2"
      using sampled_inverted [OF conjunct1 [OF h] that, of seed] by simp_all
    show ?thesis
      using b np_round4_range [of "sampled rs seed n f 2 (- 1) ! i ! j"] by (simp add: c)
  qed
  with run len
  show "\<exists>t g'. gen_data rs seed n f 2 (- 1) g = Inr (t, g') \<and> length (rows t) = nat n
                  \<and> (\<forall>i<nat n. \<forall>j<nat f.
                        rows t ! i ! j = Float (np_round 4 (sampled rs seed n f 2 (- 1) ! i ! j))
                        \<and> - 1 < sampled rs seed n f 2 (- 1) ! i ! j
                        \<and> sampled rs seed n f 2 (- 1) ! i ! j \<le> 2
                        \<and> - 1 \<le> cell_val (rows t ! i ! j) \<and> cell_val (rows t ! i ! j) \<le> 2)"
    by blast
qed

text \<open>
  Claim C3 as stated fails: over the inverted interval \<open>low = 2\<close>, \<open>high = -1\<close> the run
  raises nothing and returns a table; here with one row, and without an error also with
  the 100 rows of the script.
\<close>

theorem inverted_interval_accepted:
  "gen_data inverted_source 123 1 5 2 (- 1) 0 = Inr (inverted_table, 6)
   \<and> \<not> isl (gen_data inverted_source 123 100 5 2 (- 1) 0)"
proof
  show "gen_data inverted_source 123 1 5 2 (- 1) 0 = Inr (inverted_table, 6)"
    by (rule inverted_run)
  have "gen_data inverted_source 123 100 5 2 (- 1) 0 =
     Inr (\<lparr>index_name = Some ''Observation'', index = [1..100],
           columns = map feature_label [1..5] @ [''Demand''],
           rows = map (\<lambda>(r, e). table_row r e)
                    (zip (sampled inverted_source 123 100 5 2 (- 1))
                         (noise_draws inverted_source (nat 100) (noise_state inverted_source 123 100 5)))\<rparr>,
          after_normals inverted_source (nat 100) (noise_state inverted_source 123 100 5))"
    by (rule gen_data_ok) simp_all
  then show "\<not> isl (gen_data inverted_source 123 100 5 2 (- 1) 0)" by simp
qed

text \<open>The statement of C3 on concrete runs.\<close>

theorem no_configuration_check_witness:
  "gen_data recorded_source 123 0 5 (- 1) 2 0 = Inl ValueError
   \<and> gen_data recorded_source 123 (- 1) 5 (- 1) 2 0 = Inl ValueError
   \<and> (\<exists>t g'. gen_data inverted_source 123 1 5 2 (- 1) 0 = Inr (t, g') \<and> length (rows t) = nat 1
         \<and> (\<forall>i<nat 1. \<forall>j<nat 5.
               rows t ! i ! j = Float (np_round 4 (sampled inverted_source 123 1 5 2 (- 1) ! i ! j))
               \<and> - 1 < sampled inverted_source 123 1 5 2 (- 1) ! i ! j
               \<and> sampled inverted_source 123 1 5 2 (- 1) ! i ! j \<le> 2
               \<and> - 1 \<le> cell_val (rows t ! i ! j) \<and> cell_val (rows t ! i ! j) \<le> 2))"
proof -
  have s: "(0::int) \<le> 123" "(123::int) < 2 ^ 32" by simp_all
  have a: "gen_data recorded_source 123 0 5 (- 1) 2 0 = Inl ValueError"
    using no_configuration_check [OF s, of 2 "- 1" 0 5 recorded_source 0] by simp
  have b: "gen_data recorded_source 123 (- 1) 5 (- 1) 2 0 = Inl ValueError"
    using no_configuration_check [OF s, of 2 "- 1" "- 1" 5 recorded_source 0] by simp
  have c: "unit_samples inverted_source \<and> (1::int) \<le> 1 \<and> (5::int) \<le> 5"
    using unit_samples_inverted by simp
  from no_configuration_check [OF s, THEN conjunct2, THEN mp, OF c, of 0] a b
  show ?thesis by blast
qed

text \<open>
  Claim C4 (range). With the interval of the script, every sampled value lies in
  \<open>[-1, 2)\<close> before rounding, and the feature cell, its rounding to four decimals, lies in
  \<open>[-1, 2]\<close>. The source is assumed to keep NumPy's contract that unit samples lie in
  \<open>[0, 1)\<close>.
\<close>

theorem feature_range:
  assumes "unit_samples rs" and "gen_data rs seed n f (- 1) 2 g = Inr (t, g')"
    and "i < length (rows t)" and "j < nat f"
  shows "- 1 \<le> sampled rs seed n f (- 1) 2 ! i ! j \<and> sampled rs seed n f (- 1) 2 ! i ! j < 2
     \<and> rows t ! i ! j = Float (np_round 4 (sampled rs seed n f (- 1) 2 ! i ! j))
     \<and> - 1 \<le> cell_val (rows t ! i ! j) \<and> cell_val (rows t ! i ! j) \<le> 2"
proof -
  have i: "i < nat n" using assms(2,3) by (simp add: gen_data_rows(1))
  have b: "- 1 \<le> sampled rs seed n f (- 1) 2 ! i ! j" "sampled rs seed n f (- 1) 2 ! i ! j < 2"
    using sampled_bounds [OF assms(1) i assms(4), of "- 1" 2 seed] by simp_all
  have c: "rows t ! i ! j = Float (np_round 4 (sampled rs seed n f (- 1) 2 ! i ! j))"
    by (rule gen_data_cell(1) [OF assms(2,3,4)])
  show ?thesis
    using b np_round4_range [of "sampled rs seed n f (- 1) 2 ! i ! j"] by (simp add: c)
qed

text \<open>The statement of C4 on a concrete run.\<close>

theorem feature_range_witness:
  "- 1 \<le> sampled recorded_source 123 2 5 (- 1) 2 ! 1 ! 2
     \<and> sampled recorded_source 123 2 5 (- 1) 2 ! 1 ! 2 < 2
     \<and> rows recorded_table ! 1 ! 2 = Float (np_round 4 (sampled recorded_source 123 2 5 (- 1) 2 ! 1 ! 2))
     \<and> - 1 \<le> cell_val (rows recorded_table ! 1 ! 2) \<and> cell_val (rows recorded_table ! 1 ! 2) \<le> 2"
  by (rule feature_range [OF unit_samples_recorded recorded_run recorded_rows(2)]) simp

text \<open>
  Claim C5 (index). The index of the generated table is named \<open>Observation\<close> and is the
  sequence \<open>1 .. N\<close>, one value per row: the \<open>i\<close>-th value (from 0) is \<open>i + 1\<close>, and no value
  occurs twice.
\<close>

theorem observation_index:
  assumes "gen_data rs seed n f low high g = Inr (t, g')"
  shows "index t = [1..n] \<and> int (length (rows t)) = n \<and> index_name t = Some ''Observation''
     \<and> distinct (index t) \<and> (\<forall>i<length (rows t). index t ! i = int i + 1)"
proof -
  have n: "0 \<le> n" using assms by (rule gen_data_Inr(5))
  have "index t = [1..n]" "index_name t = Some ''Observation''"
    by (simp_all add: gen_data_Inr(1) [OF assms])
  moreover have "int (length (rows t)) = n"
    using n by (simp add: gen_data_rows(1) [OF assms])
  ultimately show ?thesis by auto
qed

text \<open>The statement of C5 on a concrete run.\<close>

theorem observation_index_witness:
  "index recorded_table = [1..2] \<and> int (length (rows recorded_table)) = 2
     \<and> index_name recorded_table = Some ''Observation''
     \<and> distinct (index recorded_table)
     \<and> index recorded_table ! 1 = int 1 + 1"
proof -
  note h = observation_index [OF recorded_run]
  from h have c: "\<forall>i<length (rows recorded_table). index recorded_table ! i = int i + 1"
    by blast
  from c [rule_format, OF recorded_rows(2)] h show ?thesis by blast
qed

text \<open>
  Claim C6 (shape). A generated table has exactly \<open>N\<close> rows, \<open>F + 1\<close> column labels and
  \<open>F + 1\<close> cells in every row, and one index value per row. With the constants of the
  script a table is always generated: 100 rows of 6 cells.
\<close>

theorem table_shape:
  "(gen_data rs seed n f low high g = Inr (t, g') \<longrightarrow>
      int (length (rows t)) = n \<and> int (length (columns t)) = f + 1
      \<and> (\<forall>r\<in>set (rows t). int (length r) = f + 1) \<and> length (index t) = length (rows t))
   \<and> (\<exists>t g'. gen_data rs 123 100 5 (- 1) 2 g = Inr (t, g')
        \<and> length (rows t) = 100 \<and> length (columns t) = 6 \<and> (\<forall>r\<in>set (rows t). length r = 6))"
proof (intro conjI impI)
  assume a: "gen_data rs seed n f low high g = Inr (t, g')"
  have n: "0 \<le> n" and f: "1 \<le> f" using a by (rule gen_data_Inr(5), rule gen_data_Inr(6))
  show "int (length (rows t)) = n" using n by (simp add: gen_data_rows(1) [OF a])
  show "int (length (columns t)) = f + 1" using f by (simp add: gen_data_Inr(1) [OF a])
  show "\<forall>r\<in>set (rows t). int (length r) = f + 1"
    using f by (auto simp: in_set_conv_nth gen_data_cell(3) [OF a])
  show "length (index t) = length (rows t)" using n by (simp add: gen_data_Inr(1) [OF a])
next
  have r: "gen_data rs 123 100 5 (- 1) 2 g =
     Inr (\<lparr>index_name = Some ''Observation'', index = [1..100],
           columns = map feature_label [1..5] @ [''Demand''],
           rows = map (\<lambda>(r, e). table_row r e)
                    (zip (sampled rs 123 100 5 (- 1) 2)
                         (noise_draws rs (nat 100) (noise_state rs 123 100 5)))\<rparr>,
          after_normals rs (nat 100) (noise_state rs 123 100 5))"
    by (rule gen_data_ok) simp_all
  show "\<exists>t g'. gen_data rs 123 100 5 (- 1) 2 g = Inr (t, g')
        \<and> length (rows t) = 100 \<and> length (columns t) = 6 \<and> (\<forall>r\<in>set (rows t). length r = 6)"
    using gen_data_cell(3) [OF r] by (auto simp: r in_set_conv_nth)
qed

text \<open>The statement of C6 on a concrete run.\<close>

theorem table_shape_witness:
  "int (length (rows recorded_table)) = 2 \<and> int (length (columns recorded_table)) = 5 + 1
      \<and> int (length (rows recorded_table ! 1)) = 5 + 1
      \<and> length (index recorded_table) = length (rows recorded_table)"
proof -
  have h: "int (length (rows recorded_table)) = 2 \<and> int (length (columns recorded_table)) = 5 + 1
      \<and> (\<forall>r\<in>set (rows recorded_table). int (length r) = 5 + 1)
      \<and> length (index recorded_table) = length (rows recorded_table)"
    using table_shape [of recorded_source 123 2 5 "- 1" 2 0 recorded_table 12] recorded_run
    by blast
  have "rows recorded_table ! 1 \<in> set (rows recorded_table)"
    using recorded_rows(2) by (rule nth_mem)
  with h show ?thesis by blast
qed

text \<open>
  Claim C7 (output format). For any generated table the lines of \<open>to_csv\<close> are the header
  \<open>Observation,Feature_1,...,Feature_F,Demand\<close> and then one line per row, in order: the
  index value \<open>i + 1\<close>, the \<open>F\<close> feature values and the demand, joined by commas, every
  feature value an integer multiple of one ten-thousandth and every demand an integer.
  What the script writes is the header with \<open>Feature_1\<close> to \<open>Feature_5\<close> and 100 such
  lines; with unit samples in \<open>[0, 1)\<close> and a formatter that keeps \<open>repr_on_grid\<close>, the
  text of every feature field has a point followed by at most four digits.
\<close>

theorem csv_output:
  "(gen_data rs seed n f low high g = Inr (t, g') \<longrightarrow>
      (\<exists>fs ds. length fs = nat n \<and> length ds = nat n
         \<and> rows t = map (\<lambda>(r, d). map Float r @ [Integer d]) (zip fs ds)
         \<and> (\<forall>r\<in>set fs. length r = nat f \<and> (\<forall>x\<in>set r. \<exists>k::int. x = real_of_int k / 10 ^ 4))
         \<and> to_csv float_repr t =
             join '','' (''Observation'' # map feature_label [1..f] @ [''Demand''])
             # map (\<lambda>i. join '','' (string_of_int (int i + 1) # map float_repr (fs ! i)
                                      @ [string_of_int (ds ! i)])) [0..<nat n]))
   \<and> (unit_samples rs \<and> repr_on_grid float_repr \<longrightarrow>
      (\<exists>fs ds s. length fs = 100 \<and> length ds = 100
         \<and> (\<forall>r\<in>set fs. length r = 5
               \<and> (\<forall>x\<in>set r. (\<exists>k::int. x = real_of_int k / 10 ^ 4)
                     \<and> decimals_at_most 4 (float_repr x)))
         \<and> gen_data_script rs float_repr g =
             Inr (''Observation,Feature_1,Feature_2,Feature_3,Feature_4,Feature_5,Demand''
                  # map (\<lambda>i. join '','' (string_of_int (int i + 1) # map float_repr (fs ! i)
                                           @ [string_of_int (ds ! i)])) [0..<100], s)))"
proof (intro conjI impI)
  assume a: "gen_data rs seed n f low high g = Inr (t, g')"
  define m where "m = sampled rs seed n f low high"
  define fs where "fs = map (map (np_round 4)) m"
  define ds where "ds = map (\<lambda>(r, e). demand_of (map (np_round 4) r) e)
                 (zip m (noise_draws rs (nat n) (noise_state rs seed n f)))"
  have len: "length fs = nat n" "length ds = nat n"
    by (simp_all add: fs_def ds_def m_def)
  have grid: "\<forall>r\<in>set fs. length r = nat f \<and> (\<forall>x\<in>set r. \<exists>k::int. x = real_of_int k / 10 ^ 4)"
  proof
    fix r assume "r \<in> set fs"
    then obtain i where i: "i < nat n" and r: "r = map (np_round 4) (m ! i)"
      by (auto simp: fs_def m_def in_set_conv_nth)
    have "length r = nat f" using i by (simp add: r m_def sampled_row_length)
    moreover have "\<forall>x\<in>set r. \<exists>k::int. x = real_of_int k / 10 ^ 4"
      using np_round_decimals [of 4] by (auto simp: r)
    ultimately show "length r = nat f \<and> (\<forall>x\<in>set r. \<exists>k::int. x = real_of_int k / 10 ^ 4)" ..
  qed
  from csv_lines(1) [OF a] csv_lines(2) [OF a, of float_repr] len grid
  show "\<exists>fs ds. length fs = nat n \<and> length ds = nat n
         \<and> rows t = map (\<lambda>(r, d). map Float r @ [Integer d]) (zip fs ds)
         \<and> (\<forall>r\<in>set fs. length r = nat f \<and> (\<forall>x\<in>set r. \<exists>k::int. x = real_of_int k / 10 ^ 4))
         \<and> to_csv float_repr t =
             join '','' (''Observation'' # map feature_label [1..f] @ [''Demand''])
             # map (\<lambda>i. join '','' (string_of_int (int i + 1) # map float_repr (fs ! i)
                                      @ [string_of_int (ds ! i)])) [0..<nat n]"
    unfolding fs_def ds_def m_def by blast
next
  assume h: "unit_samples rs \<and> repr_on_grid float_repr"
  define m where "m = sampled rs 123 100 5 (- 1) 2"
  define es where "es = noise_draws rs (nat 100) (noise_state rs 123 100 5)"
  define fs where "fs = map (map (np_round 4)) m"
  define ds where "ds = map (\<lambda>(r, e). demand_of (map (np_round 4) r) e) (zip m es)"
  define t where "t = \<lparr>index_name = Some ''Observation'', index = [1..100],
           columns = map feature_label [1..5] @ [''Demand''],
           rows = map (\<lambda>(r, e). table_row r e) (zip m es)\<rparr>"
  define s where "s = after_normals rs (nat 100) (noise_state rs 123 100 5)"
  have run: "gen_data rs 123 100 5 (- 1) 2 g = Inr (t, s)"
    unfolding t_def s_def m_def es_def by (rule gen_data_ok) simp_all
  have len: "length fs = 100" "length ds = 100"
    by (simp_all add: fs_def ds_def m_def es_def)
  have cells: "\<forall>r\<in>set fs. length r = 5
      \<and> (\<forall>x\<in>set r. (\<exists>k::int. x = real_of_int k / 10 ^ 4) \<and> decimals_at_most 4 (float_repr x))"
  proof
    fix r assume "r \<in> set fs"
    then obtain i where i: "i < nat 100" and r: "r = map (np_round 4) (m ! i)"
      by (auto simp: fs_def m_def in_set_conv_nth)
    have l: "length (m ! i) = nat 5" unfolding m_def using i by (rule sampled_row_length)
    have "(\<exists>k::int. x = real_of_int k / 10 ^ 4) \<and> decimals_at_most 4 (float_repr x)"
      if "x \<in> set r" for x
    proof -
      from that obtain j where j: "j < nat 5" and x: "x = np_round 4 (m ! i ! j)"
        using l by (auto simp: r in_set_conv_nth)
      from rounded_cell [OF conjunct1 [OF h] i j, of 123]
      obtain k :: int where k: "\<bar>k\<bar> \<le> 20000" "x = real_of_int k / 10 ^ 4"
        unfolding x m_def by blast
      have "decimals_at_most 4 (float_repr x)"
        unfolding k(2) by (rule decimals_on_grid [OF conjunct2 [OF h] k(1)])
      with k(2) show ?thesis by blast
    qed
    then show "length r = 5
      \<and> (\<forall>x\<in>set r. (\<exists>k::int. x = real_of_int k / 10 ^ 4) \<and> decimals_at_most 4 (float_repr x))"
      using l by (simp add: r)
  qed
  have "to_csv float_repr t =
         join '','' (''Observation'' # map feature_label [1..5] @ [''Demand''])
         # map (\<lambda>i. join '','' (string_of_int (int i + 1) # map float_repr (fs ! i)
                                  @ [string_of_int (ds ! i)])) [0..<nat 100]"
    unfolding fs_def ds_def m_def es_def by (rule csv_lines(2) [OF run])
  then have "gen_data_script rs float_repr g =
             Inr (''Observation,Feature_1,Feature_2,Feature_3,Feature_4,Feature_5,Demand''
                  # map (\<lambda>i. join '','' (string_of_int (int i + 1) # map float_repr (fs ! i)
                                           @ [string_of_int (ds ! i)])) [0..<100], s)"
    by (simp add: gen_data_script_def run script_header)
  with len cells
  show "\<exists>fs ds s. length fs = 100 \<and> length ds = 100
         \<and> (\<forall>r\<in>set fs. length r = 5
               \<and> (\<forall>x\<in>set r. (\<exists>k::int. x = real_of_int k / 10 ^ 4)
                     \<and> decimals_at_most 4 (float_repr x)))
         \<and> gen_data_script rs float_repr g =
             Inr (''Observation,Feature_1,Feature_2,Feature_3,Feature_4,Feature_5,Demand''
                  # map (\<lambda>i. join '','' (string_of_int (int i + 1) # map float_repr (fs ! i)
                                           @ [string_of_int (ds ! i)])) [0..<100], s)"
    by blast
qed

text \<open>The statement of C7 on concrete runs.\<close>

theorem csv_output_witness:
  "(\<exists>fs ds. length fs = nat 2 \<and> length ds = nat 2
     \<and> rows recorded_table = map (\<lambda>(r, d). map Float r @ [Integer d]) (zip fs ds)
     \<and> (\<forall>r\<in>set fs. length r = nat 5 \<and> (\<forall>x\<in>set r. \<exists>k::int. x = real_of_int k / 10 ^ 4))
     \<and> to_csv decimal4 recorded_table =
         join '','' (''Observation'' # map feature_label [1..5] @ [''Demand''])
         # map (\<lambda>i. join '','' (string_of_int (int i + 1) # map decimal4 (fs ! i)
                                  @ [string_of_int (ds ! i)])) [0..<nat 2])
   \<and> to_csv decimal4 recorded_table =
     [''Observation,Feature_1,Feature_2,Feature_3,Feature_4,Feature_5,Demand'',
      ''1,1.25,-1.0,-0.25,0.5,0.0,21'',
      ''2,1.25,-1.0,-0.25,0.5,0.0,18'']
   \<and> (\<exists>fs ds s. length fs = 100 \<and> length ds = 100
         \<and> (\<forall>r\<in>set fs. length r = 5
               \<and> (\<forall>x\<in>set r. (\<exists>k::int. x = real_of_int k / 10 ^ 4)
                     \<and> decimals_at_most 4 (decimal4 x)))
         \<and> gen_data_script recorded_source decimal4 0 =
             Inr (''Observation,Feature_1,Feature_2,Feature_3,Feature_4,Feature_5,Demand''
                  # map (\<lambda>i. join '','' (string_of_int (int i + 1) # map decimal4 (fs ! i)
                                           @ [string_of_int (ds ! i)])) [0..<100], s))"
proof -
  note h = csv_output [of recorded_source 123 2 5 "- 1" 2 0 recorded_table 12 decimal4]
  have c: "unit_samples recorded_source \<and> repr_on_grid decimal4"
    using unit_samples_recorded repr_on_grid_decimal4 by simp
  from h [THEN conjunct1, THEN mp, OF recorded_run] recorded_csv h [THEN conjunct2, THEN mp, OF c]
  show ?thesis by (intro conjI)
qed

text \<open>
  Claim C8 (rounding convention). The demand of a row is an integer nearest to the value
  \<open>x = 12 * val + noise\<close> of that row, and when \<open>x\<close> lies halfway between two integers
  the even one is taken.
\<close>

theorem demand_ties_to_even:
  assumes "gen_data rs seed n f low high g = Inr (t, g')" and "i < length (rows t)"
    and "x = 12 * poly_value (map cell_val (take (nat f) (rows t ! i)))
              + noise_draws rs (nat n) (noise_state rs seed n f) ! i"
  shows "\<exists>d. rows t ! i ! nat f = Integer d \<and> \<bar>real_of_int d - x\<bar> \<le> 1 / 2
     \<and> (x - real_of_int \<lfloor>x\<rfloor> = 1 / 2 \<longrightarrow> even d)"
proof -
  have "rows t ! i ! nat f = Integer (py_round x)"
    using gen_data_cell(2) [OF assms(1,2)]
    by (simp add: assms(3) gen_data_cell(4) [OF assms(1,2)] demand_of_def)
  then show ?thesis
    using py_round_nearest [of x] py_round_tie_even [of x] by auto
qed

text \<open>The statement of C8 on a concrete run.\<close>

theorem demand_ties_to_even_witness:
  "12 * poly_value (map cell_val (take (nat 5) (rows constant_table ! 0)))
     + noise_draws constant_source (nat 1) (noise_state constant_source 123 1 5) ! 0 = 57 / 2
   \<and> rows constant_table ! 0 ! nat 5 = Integer 28 \<and> even (28::int)"
proof -
  have x: "12 * poly_value (map cell_val (take (nat 5) (rows constant_table ! 0)))
     + noise_draws constant_source (nat 1) (noise_state constant_source 123 1 5) ! 0 = 57 / 2"
    by (rule constant_pre_round)
  from demand_ties_to_even [OF constant_run constant_rows x [symmetric]]
  obtain d where d: "rows constant_table ! 0 ! nat 5 = Integer d"
    and ev: "57 / 2 - real_of_int \<lfloor>57 / 2 :: real\<rfloor> = 1 / 2 \<longrightarrow> even d"
    by blast
  have "d = 28" using d by (simp add: constant_table_def)
  with d ev have "rows constant_table ! 0 ! nat 5 = Integer 28 \<and> even (28::int)" by simp
  with x show ?thesis by blast
qed

text \<open>
  Claim C9 (draw order). Counting from the seeded state, the feature in row \<open>i\<close> and
  column \<open>j\<close> comes from the unit sample number \<open>i * F + j\<close>; the noise of row \<open>i\<close> is the
  Gaussian draw made after all \<open>N * F\<close> unit samples and \<open>i\<close> earlier Gaussian draws; and
  the run leaves the source after exactly \<open>N * F\<close> unit samples followed by \<open>N\<close> Gaussian
  draws. So the whole matrix is sampled before any noise, and there is one noise draw per
  row, in row order.
\<close>

theorem draw_order:
  assumes "gen_data rs seed n f low high g = Inr (t, g')" and "i < length (rows t)"
  shows "(\<forall>j<nat f. rows t ! i ! j =
            Float (np_round 4 (low + (high - low) *
              fst (random_sample rs (after_samples rs (i * nat f + j) (seed_state rs (nat seed)))))))
     \<and> rows t ! i ! nat f =
         Integer (py_round (12 * poly_value (map cell_val (take (nat f) (rows t ! i)))
           + (4 + 2 * fst (standard_normal rs
                (after_normals rs i (after_samples rs (nat n * nat f) (seed_state rs (nat seed))))))))
     \<and> g' = after_normals rs (nat n) (after_samples rs (nat n * nat f) (seed_state rs (nat seed)))"
proof -
  have i: "i < nat n" using assms by (simp add: gen_data_rows(1))
  have "rows t ! i ! j = Float (np_round 4 (low + (high - low) *
      fst (random_sample rs (after_samples rs (i * nat f + j) (seed_state rs (nat seed))))))"
    if "j < nat f" for j
    using gen_data_cell(1) [OF assms that] sampled_nth [OF i that, of rs seed low high] by simp
  moreover have "rows t ! i ! nat f =
         Integer (py_round (12 * poly_value (map cell_val (take (nat f) (rows t ! i)))
           + (4 + 2 * fst (standard_normal rs
                (after_normals rs i (after_samples rs (nat n * nat f) (seed_state rs (nat seed))))))))"
    using gen_data_cell(2) [OF assms] noise_draws_nth [OF i, of rs "noise_state rs seed n f"]
    by (simp add: gen_data_cell(4) [OF assms] demand_of_def noise_state_def)
  moreover have "g' = after_normals rs (nat n) (after_samples rs (nat n * nat f) (seed_state rs (nat seed)))"
    using gen_data_Inr(2) [OF assms(1)] by (simp add: noise_state_def)
  ultimately show ?thesis by blast
qed

text \<open>The statement of C9 on a concrete run.\<close>

theorem draw_order_witness:
  "rows recorded_table ! 1 ! 2 =
        Float (np_round 4 (- 1 + (2 - (- 1)) *
          fst (random_sample recorded_source
            (after_samples recorded_source (1 * nat 5 + 2) (seed_state recorded_source (nat 123))))))
     \<and> rows recorded_table ! 1 ! nat 5 =
         Integer (py_round (12 * poly_value (map cell_val (take (nat 5) (rows recorded_table ! 1)))
           + (4 + 2 * fst (standard_normal recorded_source
                (after_normals recorded_source 1
                  (after_samples recorded_source (nat 2 * nat 5) (seed_state recorded_source (nat 123))))))))
     \<and> 12 = after_normals recorded_source (nat 2)
          (after_samples recorded_source (nat 2 * nat 5) (seed_state recorded_source (nat 123)))"
proof -
  note h = draw_order [OF recorded_run recorded_rows(2)]
  have l: "(2::nat) < nat 5" by simp
  from h have c: "\<forall>j<nat 5. rows recorded_table ! 1 ! j =
        Float (np_round 4 (- 1 + (2 - (- 1)) *
          fst (random_sample recorded_source
            (after_samples recorded_source (1 * nat 5 + j) (seed_state recorded_source (nat 123))))))"
    by blast
  from c [rule_format, OF l] h show ?thesis by blast
qed

text \<open>
  Claim C10 (half-open interval). With the interval of the script every sampled value is
  strictly below 2, and a feature cell equals 2 exactly when the sampled value is at
  least 1.99995, that is, only by rounding up. The source is assumed to keep NumPy's
  contract that unit samples lie in \<open>[0, 1)\<close>.
\<close>

theorem half_open_interval:
  assumes "unit_samples rs" and "gen_data rs seed n f (- 1) 2 g = Inr (t, g')"
    and "i < length (rows t)" and "j < nat f"
  shows "sampled rs seed n f (- 1) 2 ! i ! j < 2
     \<and> (rows t ! i ! j = Float 2 \<longleftrightarrow> 199995 / 100000 \<le> sampled rs seed n f (- 1) 2 ! i ! j)"
proof -
  have i: "i < nat n" using assms(2,3) by (simp add: gen_data_rows(1))
  have b: "sampled rs seed n f (- 1) 2 ! i ! j < 2"
    using sampled_bounds(2) [OF assms(1) i assms(4), of "- 1" 2 seed] by simp
  have c: "rows t ! i ! j = Float (np_round 4 (sampled rs seed n f (- 1) 2 ! i ! j))"
    by (rule gen_data_cell(1) [OF assms(2,3,4)])
  show ?thesis
    using b np_round4_eq_2 [of "sampled rs seed n f (- 1) 2 ! i ! j"]
      np_round4_up_to_2 [of "sampled rs seed n f (- 1) 2 ! i ! j"]
    by (auto simp: c)
qed

text \<open>The statement of C10 on a concrete run.\<close>

theorem half_open_interval_witness:
  "sampled recorded_source 123 2 5 (- 1) 2 ! 0 ! 0 < 2
     \<and> (rows recorded_table ! 0 ! 0 = Float 2
          \<longleftrightarrow> 199995 / 100000 \<le> sampled recorded_source 123 2 5 (- 1) 2 ! 0 ! 0)"
  by (rule half_open_interval [OF unit_samples_recorded recorded_run recorded_rows(1)]) simp

end
